theory Spec2Isabelle
  imports Complex_Main "HOL-Library.Word" "HOL-Library.Log_Nat"
begin

section \<open>Machine numbers\<close>

type_synonym u8 = "8 word"
type_synonym u16 = "16 word"
type_synonym u32 = "32 word"

subsection \<open>Go's \<open>float32\<close>\<close>

text \<open>
  A finite \<open>float32\<close> is a rational number; every arithmetic operation of the source is the
  exact operation followed by rounding to the nearest value with a 24-bit significand, ties to
  the even significand. \<open>ilog2 x\<close> is the binade of a positive \<open>x\<close>, \<open>pow2\<close> the power of
  two with an integer exponent, \<open>rne\<close> rounding of a rational to the nearest integer, ties to
  even. Exponent overflow and subnormal numbers are outside the model: every value the
  modelled code computes lies between \<open>2^-126\<close> and \<open>2^127\<close> in magnitude or is zero.
\<close>

definition pow2 :: "int \<Rightarrow> rat" where
  "pow2 e = (if 0 \<le> e then 2 ^ nat e else 1 / 2 ^ nat (- e))"

definition ilog2 :: "rat \<Rightarrow> int" where
  "ilog2 x = (if 1 \<le> x then bitlen \<lfloor>x\<rfloor> - 1 else - bitlen (\<lceil>1 / x\<rceil> - 1))"

definition rne :: "rat \<Rightarrow> int" where
  "rne q = (let n = \<lfloor>q\<rfloor>; r = q - of_int n
            in if r < 1 / 2 then n
               else if 1 / 2 < r then n + 1
               else if even n then n else n + 1)"

definition f32pos :: "rat \<Rightarrow> rat" where
  "f32pos x = of_int (rne (x / pow2 (ilog2 x - 23))) * pow2 (ilog2 x - 23)"

definition f32 :: "rat \<Rightarrow> rat" where
  "f32 x = (if x = 0 then 0 else if 0 < x then f32pos x else - f32pos (- x))"

text \<open>
  \<open>float32(n)\<close> for an integer, and \<open>int(f)\<close> for a float: truncation towards zero,
  and the smallest \<open>int\<close> for a value out of the range of \<open>int\<close>, which is what the
  conversion instruction of the 64-bit platforms the renderer is built for delivers.
\<close>

definition float32_of_int :: "int \<Rightarrow> rat" where
  "float32_of_int n = f32 (of_int n)"

definition int_of_float32 :: "rat \<Rightarrow> int" where
  "int_of_float32 f =
     (let t = (if 0 \<le> f then \<lfloor>f\<rfloor> else \<lceil>f\<rceil>)
      in if - (2 ^ 63) \<le> t \<and> t < 2 ^ 63 then t else - (2 ^ 63))"

definition fadd :: "rat \<Rightarrow> rat \<Rightarrow> rat" where "fadd a b = f32 (a + b)"
definition fsub :: "rat \<Rightarrow> rat \<Rightarrow> rat" where "fsub a b = f32 (a - b)"
definition fmul :: "rat \<Rightarrow> rat \<Rightarrow> rat" where "fmul a b = f32 (a * b)"
definition fdiv :: "rat \<Rightarrow> rat \<Rightarrow> rat" where "fdiv a b = f32 (a / b)"

subsection \<open>Go's \<open>int\<close>\<close>

text \<open>Go's \<open>int\<close> is 64 bits wide on the platforms the renderer targets; \<open>+\<close> and \<open>-\<close> wrap.\<close>

definition wrap64 :: "int \<Rightarrow> int" where
  "wrap64 n = ((n + 2 ^ 63) mod 2 ^ 64) - 2 ^ 63"

section \<open>Border clamping\<close>

text \<open>\<open>clampOpposingBorders\<close> of the renderer, statement by statement.\<close>

definition clampOpposingBorders :: "int \<Rightarrow> int \<Rightarrow> int \<Rightarrow> int \<times> int" where
  "clampOpposingBorders borderA borderB totalSize =
     (if totalSize \<le> 0 then (0, 0)
      else
        let a = (if borderA < 0 then 0 else borderA);
            b = (if borderB < 0 then 0 else borderB)
        in if wrap64 (a + b) > totalSize then
             let sum = float32_of_int (wrap64 (a + b));
                 a' = int_of_float32 (fmul (fdiv (float32_of_int a) sum) (float32_of_int totalSize))
             in (a', wrap64 (totalSize - a'))
           else (a, b))"

subsection \<open>Properties of the rounding\<close>

lemma pow2_powi: "pow2 e = 2 powi e"
  by (simp add: pow2_def power_int_def power_inverse inverse_eq_divide power_one_over)

lemma pow2_pos: "0 < pow2 e"
  by (simp add: pow2_def)

lemma pow2_add: "pow2 (a + b) = pow2 a * pow2 b"
  by (simp add: pow2_powi power_int_add)

lemma pow2_mono: "a \<le> b \<Longrightarrow> pow2 a \<le> pow2 b"
  by (simp add: pow2_powi power_int_increasing)

lemma pow2_less_cancel: "pow2 a < pow2 b \<Longrightarrow> a < b"
  using pow2_mono [of b a] by (cases "a < b") auto

lemma ilog2_bounds:
  assumes "0 < x"
  shows "pow2 (ilog2 x) \<le> x \<and> x < pow2 (ilog2 x + 1)"
proof (cases "1 \<le> x")
  case True
  define n where "n = \<lfloor>x\<rfloor>"
  have n: "0 < n" "of_int n \<le> x" "x < of_int n + 1"
    using True by (auto simp: n_def) linarith+
  have b: "1 \<le> bitlen n" using n(1) by (auto simp: bitlen_alt_def)
  have lo: "(2::int) ^ nat (bitlen n - 1) \<le> n" and hi: "n < 2 ^ nat (bitlen n)"
    using bitlen_bounds [OF n(1)] by auto
  have e: "ilog2 x = bitlen n - 1" using True by (simp add: ilog2_def n_def)
  have "pow2 (bitlen n - 1) = of_int (2 ^ nat (bitlen n - 1))"
    using b by (simp add: pow2_def)
  also have "\<dots> \<le> of_int n" using lo by (simp only: of_int_le_iff)
  finally have c1: "pow2 (ilog2 x) \<le> x" using n(2) e by simp
  have "n + 1 \<le> 2 ^ nat (bitlen n)" using hi by simp
  then have "(of_int (n + 1) :: rat) \<le> of_int (2 ^ nat (bitlen n))" by (simp only: of_int_le_iff)
  moreover have "pow2 (bitlen n) = of_int (2 ^ nat (bitlen n))" using b by (simp add: pow2_def)
  ultimately have "x < pow2 (ilog2 x + 1)" using n(3) e by simp
  with c1 show ?thesis by simp
next
  case False
  define y where "y = 1 / x"
  define m where "m = \<lceil>y\<rceil> - 1"
  have y1: "1 < y" using False assms by (simp add: y_def)
  have m: "0 < m" "of_int m < y" "y \<le> of_int m + 1"
    using y1 by (auto simp: m_def) linarith+
  have b: "1 \<le> bitlen m" using m(1) by (auto simp: bitlen_alt_def)
  have lo: "(2::int) ^ nat (bitlen m - 1) \<le> m" and hi: "m < 2 ^ nat (bitlen m)"
    using bitlen_bounds [OF m(1)] by auto
  have e: "ilog2 x = - bitlen m" using False by (simp add: ilog2_def m_def y_def)
  have x: "x = 1 / y" using assms by (simp add: y_def)
  have "m + 1 \<le> 2 ^ nat (bitlen m)" using hi by simp
  then have "(of_int (m + 1) :: rat) \<le> of_int (2 ^ nat (bitlen m))" by (simp only: of_int_le_iff)
  then have "y \<le> 2 ^ nat (bitlen m)" using m(3) by simp
  then have "1 / 2 ^ nat (bitlen m) \<le> 1 / y" using y1 by (simp add: frac_le)
  moreover have "pow2 (- bitlen m) = 1 / 2 ^ nat (bitlen m)" using b by (simp add: pow2_def)
  ultimately have c1: "pow2 (ilog2 x) \<le> x" using e x by simp
  have "(of_int (2 ^ nat (bitlen m - 1)) :: rat) \<le> of_int m" using lo by (simp only: of_int_le_iff)
  then have "(2::rat) ^ nat (bitlen m - 1) \<le> of_int m" by simp
  then have "(2::rat) ^ nat (bitlen m - 1) < y" using m(2) by linarith
  then have "1 / y < 1 / 2 ^ nat (bitlen m - 1)" by (simp add: frac_less2)
  moreover have "pow2 (- bitlen m + 1) = 1 / 2 ^ nat (bitlen m - 1)"
    using b by (auto simp add: pow2_def)
  ultimately have "x < pow2 (ilog2 x + 1)" using e x by simp
  with c1 show ?thesis by simp
qed

lemma ilog2_mono:
  assumes "0 < x" "x \<le> y"
  shows "ilog2 x \<le> ilog2 y"
proof -
  have "pow2 (ilog2 x) \<le> x" using ilog2_bounds [OF assms(1)] by simp
  moreover have "y < pow2 (ilog2 y + 1)" using ilog2_bounds [of y] assms by simp
  ultimately have "pow2 (ilog2 x) < pow2 (ilog2 y + 1)" using assms(2) by linarith
  then show ?thesis using pow2_less_cancel by fastforce
qed

lemma rne_of_int: "rne (of_int n) = n"
  by (simp add: rne_def)

lemma rne_bounds: "of_int (rne q) \<le> q + 1 / 2 \<and> q - 1 / 2 \<le> of_int (rne q)"
  unfolding rne_def Let_def by (auto; linarith)

lemma rne_floor_le: "\<lfloor>q\<rfloor> \<le> rne q" and rne_le_floor: "rne q \<le> \<lfloor>q\<rfloor> + 1"
  unfolding rne_def Let_def by auto

lemma rne_mono:
  assumes "p \<le> q"
  shows "rne p \<le> rne q"
proof (cases "\<lfloor>p\<rfloor> = \<lfloor>q\<rfloor>")
  case True
  then have "p - of_int \<lfloor>p\<rfloor> \<le> q - of_int \<lfloor>q\<rfloor>" using assms by simp
  then show ?thesis using True unfolding rne_def Let_def by auto
next
  case False
  then have "\<lfloor>p\<rfloor> + 1 \<le> \<lfloor>q\<rfloor>" using floor_mono [OF assms] by linarith
  then show ?thesis using rne_le_floor [of p] rne_floor_le [of q] by linarith
qed

lemma pow2_le_cancel: "pow2 a \<le> pow2 b \<Longrightarrow> a \<le> b"
  using power_int_strict_increasing [of b a "2::rat"] by (cases "a \<le> b") (auto simp: pow2_powi)

lemma pow2_diff: "pow2 (a - b) = pow2 a / pow2 b"
  by (simp add: pow2_powi power_int_diff)

lemma pow2_23: "pow2 23 = 8388608" and pow2_24: "pow2 24 = 16777216"
  by (simp_all add: pow2_def)

lemma f32pos_bounds:
  assumes "0 < x"
  shows "pow2 (ilog2 x) \<le> f32pos x \<and> f32pos x \<le> pow2 (ilog2 x + 1)"
proof -
  define u where "u = pow2 (ilog2 x - 23)"
  have u: "0 < u" by (simp add: u_def pow2_pos)
  have "pow2 (ilog2 x) = pow2 ((ilog2 x - 23) + 23)" by simp
  also have "\<dots> = u * pow2 23" unfolding u_def by (rule pow2_add)
  finally have lo: "pow2 (ilog2 x) = 8388608 * u" by (simp add: pow2_23)
  have "ilog2 x + 1 = (ilog2 x - 23) + 24" by arith
  then have "pow2 (ilog2 x + 1) = pow2 ((ilog2 x - 23) + 24)" by (rule arg_cong)
  also have "\<dots> = u * pow2 24" unfolding u_def by (rule pow2_add)
  finally have hi: "pow2 (ilog2 x + 1) = 16777216 * u" by (simp add: pow2_24)
  have "8388608 * u \<le> x" "x < 16777216 * u"
    using ilog2_bounds [OF assms] lo hi by simp_all
  then have q: "of_int 8388608 \<le> x / u" "x / u \<le> of_int 16777216"
    using u by (simp_all add: pos_le_divide_eq pos_divide_le_eq)
  have "8388608 \<le> rne (x / u)" "rne (x / u) \<le> 16777216"
    using rne_mono [OF q(1)] rne_mono [OF q(2)] by (simp_all only: rne_of_int)
  then have "(8388608::rat) \<le> of_int (rne (x / u))" "of_int (rne (x / u)) \<le> (16777216::rat)"
    by linarith+
  then have "8388608 * u \<le> of_int (rne (x / u)) * u" "of_int (rne (x / u)) * u \<le> 16777216 * u"
    using u by simp_all
  then show ?thesis by (simp add: f32pos_def lo hi flip: u_def)
qed

lemma f32pos_mono:
  assumes "0 < x" "x \<le> y"
  shows "f32pos x \<le> f32pos y"
proof (cases "ilog2 x = ilog2 y")
  case True
  define u where "u = pow2 (ilog2 y - 23)"
  have u: "0 < u" by (simp add: u_def pow2_pos)
  have "x / u \<le> y / u" using assms u by (simp add: divide_right_mono)
  then have "(of_int (rne (x / u)) :: rat) \<le> of_int (rne (y / u))"
    using rne_mono by (simp only: of_int_le_iff)
  then have "of_int (rne (x / u)) * u \<le> of_int (rne (y / u)) * u" using u by simp
  then show ?thesis by (simp add: f32pos_def True flip: u_def)
next
  case False
  then have "ilog2 x + 1 \<le> ilog2 y" using ilog2_mono [OF assms] by linarith
  then have "pow2 (ilog2 x + 1) \<le> pow2 (ilog2 y)" by (rule pow2_mono)
  moreover have "f32pos x \<le> pow2 (ilog2 x + 1)" using f32pos_bounds [OF assms(1)] by simp
  moreover have "pow2 (ilog2 y) \<le> f32pos y" using f32pos_bounds [of y] assms by simp
  ultimately show ?thesis by linarith
qed

lemma f32_nonneg: "0 \<le> x \<Longrightarrow> 0 \<le> f32 x"
  using f32pos_bounds [of x] pow2_pos [of "ilog2 x"] by (auto simp: f32_def)

lemma f32_mono:
  assumes "0 \<le> x" "x \<le> y"
  shows "f32 x \<le> f32 y"
proof (cases "x = 0")
  case True
  then show ?thesis using f32_nonneg [of y] assms by (simp add: f32_def)
next
  case False
  then have "0 < x" "0 < y" using assms by auto
  then show ?thesis using f32pos_mono [of x y] assms by (simp add: f32_def)
qed

lemma f32pos_exact:
  assumes "x / pow2 (ilog2 x - 23) = of_int k"
  shows "f32pos x = x"
proof -
  have "pow2 (ilog2 x - 23) \<noteq> 0" using pow2_pos [of "ilog2 x - 23"] by simp
  then have "of_int k * pow2 (ilog2 x - 23) = x" using assms by (simp add: field_simps)
  then show ?thesis using assms by (simp add: f32pos_def rne_of_int)
qed

lemma f32_of_int_exact:
  assumes "0 \<le> n" "n \<le> 16777216"
  shows "f32 (of_int n) = of_int n"
proof (cases "n = 0")
  case True
  then show ?thesis by (simp add: f32_def)
next
  case False
  define x :: rat where "x = of_int n"
  have x: "0 < x" "x \<le> pow2 24" using assms False by (simp_all add: x_def pow2_24)
  have b: "pow2 (ilog2 x) \<le> x" using ilog2_bounds [OF x(1)] by simp
  then have e: "ilog2 x \<le> 24" using x(2) pow2_le_cancel [of "ilog2 x" 24] by linarith
  have "\<exists>k. x / pow2 (ilog2 x - 23) = of_int k"
  proof (cases "ilog2 x \<le> 23")
    case True
    have "x / pow2 (ilog2 x - 23) = x * pow2 (23 - ilog2 x)"
      using pow2_diff [of 0 "ilog2 x - 23"] by (simp add: pow2_def)
    also have "\<dots> = of_int (n * 2 ^ nat (23 - ilog2 x))" using True by (simp add: pow2_def x_def)
    finally show ?thesis by blast
  next
    case False
    then have e24: "ilog2 x = 24" using e by simp
    then have "x = 16777216" using b x(2) by (simp add: pow2_24)
    moreover have "pow2 (ilog2 x - 23) = 2" by (simp add: e24 pow2_def)
    ultimately have "x / pow2 (ilog2 x - 23) = of_int 8388608" by simp
    then show ?thesis by blast
  qed
  then obtain k where "x / pow2 (ilog2 x - 23) = of_int k" by blast
  then have "f32pos x = x" by (rule f32pos_exact)
  then show ?thesis using x(1) by (simp add: f32_def x_def)
qed


subsection \<open>The clamped pair\<close>

lemma wrap64_id: "- (2 ^ 63) \<le> n \<Longrightarrow> n < 2 ^ 63 \<Longrightarrow> wrap64 n = n"
  by (simp add: wrap64_def)

lemma int_of_float32_floor:
  assumes "0 \<le> f" "f \<le> of_int T" "T < 2 ^ 63"
  shows "int_of_float32 f = \<lfloor>f\<rfloor>"
proof -
  have "0 \<le> \<lfloor>f\<rfloor>" "\<lfloor>f\<rfloor> \<le> T" using assms by (simp_all add: floor_le_iff)
  then show ?thesis using assms by (simp add: int_of_float32_def)
qed

text \<open>Rounding to \<open>float32\<close> changes a value by at most one part in \<open>2^24\<close>.\<close>

lemma f32_rel:
  assumes "0 \<le> x"
  shows "x * (16777215 / 16777216) \<le> f32 x \<and> f32 x \<le> x * (16777217 / 16777216)"
proof (cases "x = 0")
  case True
  then show ?thesis by (simp add: f32_def)
next
  case False
  then have x: "0 < x" using assms by simp
  define u where "u = pow2 (ilog2 x - 23)"
  have u: "0 < u" by (simp add: u_def pow2_pos)
  have "pow2 (ilog2 x) = pow2 ((ilog2 x - 23) + 23)" by simp
  also have "\<dots> = u * pow2 23" unfolding u_def by (rule pow2_add)
  finally have "8388608 * u \<le> x" using ilog2_bounds [OF x] by (simp add: pow2_23)
  then have ux: "u / 2 \<le> x / 16777216" by simp
  have f: "f32 x = of_int (rne (x / u)) * u" using x by (simp add: f32_def f32pos_def u_def)
  have "of_int (rne (x / u)) \<le> x / u + 1 / 2" "x / u - 1 / 2 \<le> of_int (rne (x / u))"
    using rne_bounds [of "x / u"] by simp_all
  then have "of_int (rne (x / u)) * u \<le> (x / u + 1 / 2) * u"
    "(x / u - 1 / 2) * u \<le> of_int (rne (x / u)) * u"
    using u by (simp_all only: mult_le_cancel_right_pos)
  then have "f32 x \<le> x + u / 2" "x - u / 2 \<le> f32 x"
    using u by (simp_all add: f algebra_simps)
  then show ?thesis using ux by simp
qed


text \<open>
  The scaled first border before truncation: at most the total, and the proportional share
  \<open>a * T / s\<close> up to the five roundings of the computation.
\<close>

lemma scaled_border_share:
  assumes "0 \<le> a" "a \<le> s" "1 \<le> s" "0 < T" "f32 (of_int T) \<le> of_int T"
  defines "p \<equiv> fmul (fdiv (float32_of_int a) (float32_of_int s)) (float32_of_int T)"
  shows "0 \<le> p \<and> p \<le> of_int T
       \<and> of_int (a * T) / of_int s * (2097151 / 2097152) \<le> p
       \<and> p \<le> of_int (a * T) / of_int s * (2097153 / 2097152)"
proof -
  define c0 :: rat where "c0 = 16777215 / 16777216"
  define c1 :: rat where "c1 = 16777217 / 16777216"
  have c: "0 < c0" "0 < c1" by (simp_all add: c0_def c1_def)
  define A :: rat where "A = of_int a"
  define S :: rat where "S = of_int s"
  define R :: rat where "R = of_int T"
  have AS: "0 \<le> A" "A \<le> S" "1 \<le> S" "0 < R" using assms(1-4) by (simp_all add: A_def S_def R_def)
  define fa where "fa = f32 A"
  define fs where "fs = f32 S"
  define fT where "fT = f32 R"
  define q where "q = f32 (fa / fs)"
  have p: "p = f32 (q * fT)"
    by (simp add: p_def fmul_def fdiv_def float32_of_int_def q_def fa_def fs_def fT_def A_def S_def R_def)
  have fa: "0 \<le> fa" "fa \<le> fs" "A * c0 \<le> fa" "fa \<le> A * c1"
    using AS f32_nonneg [of A] f32_mono [of A S] f32_rel [of A]
    by (simp_all add: fa_def fs_def c0_def c1_def)
  have "f32 (of_int 1) \<le> fs" unfolding fs_def using AS by (intro f32_mono) simp_all
  then have fs1: "1 \<le> fs" using f32_of_int_exact [of 1] by simp
  have fs: "S * c0 \<le> fs" "fs \<le> S * c1" using AS f32_rel [of S] by (simp_all add: fs_def c0_def c1_def)
  have fT: "R * c0 \<le> fT" "fT \<le> R" "0 \<le> fT"
    using AS f32_rel [of R] assms(5) f32_nonneg [of R] by (simp_all add: fT_def c0_def R_def)
  have Sc: "0 < S * c0" "0 < S * c1" using AS c by simp_all
  have d: "0 \<le> fa / fs" "fa / fs \<le> 1" using fa fs1 by simp_all
  have dlo: "A * c0 / (S * c1) \<le> fa / fs"
    using fa fs fs1 Sc AS c by (intro frac_le) simp_all
  have dhi: "fa / fs \<le> A * c1 / (S * c0)"
    using fa fs fs1 Sc by (intro frac_le) simp_all
  have "q \<le> f32 (of_int 1)" unfolding q_def using d by (intro f32_mono) simp_all
  then have q1: "0 \<le> q" "q \<le> 1" using f32_of_int_exact [of 1] f32_nonneg [OF d(1)] by (simp_all add: q_def)
  have qr: "fa / fs * c0 \<le> q" "q \<le> fa / fs * c1"
    using f32_rel [OF d(1)] by (simp_all add: q_def c0_def c1_def)
  have qlo: "A * c0 / (S * c1) * c0 \<le> q"
    using mult_right_mono [OF dlo, of c0] qr(1) c by simp
  have qhi: "q \<le> A * c1 / (S * c0) * c1"
    using mult_right_mono [OF dhi, of c1] qr(2) c by simp
  have m: "0 \<le> q * fT" "q * fT \<le> R" using q1 fT AS mult_mono [of q 1 fT R] by simp_all
  have mlo: "A * c0 / (S * c1) * c0 * (R * c0) \<le> q * fT"
    using qlo fT q1 AS c by (intro mult_mono) simp_all
  have mhi: "q * fT \<le> A * c1 / (S * c0) * c1 * R"
    using qhi fT q1 AS c by (intro mult_mono) simp_all
  have pr: "q * fT * c0 \<le> p" "p \<le> q * fT * c1"
    using f32_rel [OF m(1)] by (simp_all add: p c0_def c1_def)
  have "p \<le> f32 R" unfolding p using m by (intro f32_mono)
  then have p1: "0 \<le> p" "p \<le> R" using f32_nonneg [OF m(1)] fT by (simp_all add: p fT_def)
  define X where "X = A * R / S"
  have X: "0 \<le> X" using AS by (simp add: X_def)
  have "X * (c0 * c0 * c0 * c0 / c1) = A * c0 / (S * c1) * c0 * (R * c0) * c0"
    by (simp add: X_def)
  also have "\<dots> \<le> q * fT * c0" using mult_right_mono [OF mlo, of c0] c by simp
  finally have plo: "X * (c0 * c0 * c0 * c0 / c1) \<le> p" using pr by simp
  have "p \<le> q * fT * c1" by (rule pr)
  also have "\<dots> \<le> A * c1 / (S * c0) * c1 * R * c1" using mult_right_mono [OF mhi, of c1] c by simp
  also have "\<dots> = X * (c1 * c1 * c1 / c0)" by (simp add: X_def)
  finally have phi: "p \<le> X * (c1 * c1 * c1 / c0)" .
  have k0: "2097151 / 2097152 \<le> c0 * c0 * c0 * c0 / c1" by (simp add: c0_def c1_def)
  have k1: "c1 * c1 * c1 / c0 \<le> 2097153 / 2097152" by (simp add: c0_def c1_def)
  have "X * (2097151 / 2097152) \<le> X * (c0 * c0 * c0 * c0 / c1)"
    using X k0 by (rule mult_left_mono [rotated])
  then have lo: "X * (2097151 / 2097152) \<le> p" using plo by (rule order_trans)
  have "X * (c1 * c1 * c1 / c0) \<le> X * (2097153 / 2097152)"
    using X k1 by (rule mult_left_mono [rotated])
  with phi have hi: "p \<le> X * (2097153 / 2097152)" by (rule order_trans)
  have "of_int (a * T) / of_int s = X" by (simp add: X_def A_def R_def S_def)
  then show ?thesis using p1 lo hi unfolding R_def by blast
qed


text \<open>
  Claim C10, as amended. The arguments are \<open>int\<close>s, the clamped borders add up without
  overflow, and converting a positive total to \<open>float32\<close> does not round it up (every
  total that is itself a \<open>float32\<close> value qualifies, whatever its size). Then
  \<open>clampOpposingBorders\<close> returns two non-negative values whose sum is at most
  \<open>max(totalSize, 0)\<close>: \<open>(0, 0)\<close> when the total is not positive, the inputs with
  negatives clamped to \<open>0\<close> when their sum fits, and otherwise a pair that sums to the
  total exactly, whose first value is the \<open>float32\<close> product \<open>a / (a + b) * totalSize\<close>
  truncated: the proportional share \<open>a * totalSize / (a + b)\<close> of the clamped first
  border, less than one pixel plus one part in \<open>2^21\<close> below it and at most one part in
  \<open>2^21\<close> above it.
\<close>

theorem clampOpposingBorders_proportional:
  assumes "totalSize < 2 ^ 63"
    and "max 0 borderA + max 0 borderB < 2 ^ 63"
    and "0 < totalSize \<Longrightarrow> float32_of_int totalSize \<le> of_int totalSize"
  shows "0 \<le> fst (clampOpposingBorders borderA borderB totalSize)
       \<and> 0 \<le> snd (clampOpposingBorders borderA borderB totalSize)
       \<and> fst (clampOpposingBorders borderA borderB totalSize)
           + snd (clampOpposingBorders borderA borderB totalSize) \<le> max totalSize 0
       \<and> (totalSize \<le> 0 \<longrightarrow> clampOpposingBorders borderA borderB totalSize = (0, 0))
       \<and> (0 < totalSize \<and> max 0 borderA + max 0 borderB \<le> totalSize \<longrightarrow>
             clampOpposingBorders borderA borderB totalSize = (max 0 borderA, max 0 borderB))
       \<and> (0 < totalSize \<and> totalSize < max 0 borderA + max 0 borderB \<longrightarrow>
             fst (clampOpposingBorders borderA borderB totalSize)
               + snd (clampOpposingBorders borderA borderB totalSize) = totalSize
           \<and> fst (clampOpposingBorders borderA borderB totalSize)
               = \<lfloor>fmul (fdiv (float32_of_int (max 0 borderA))
                               (float32_of_int (max 0 borderA + max 0 borderB)))
                         (float32_of_int totalSize)\<rfloor>
           \<and> of_int (max 0 borderA * totalSize) / of_int (max 0 borderA + max 0 borderB)
                 * (2097151 / 2097152) - 1
               < (of_int (fst (clampOpposingBorders borderA borderB totalSize)) :: rat)
           \<and> (of_int (fst (clampOpposingBorders borderA borderB totalSize)) :: rat)
               \<le> of_int (max 0 borderA * totalSize) / of_int (max 0 borderA + max 0 borderB)
                   * (2097153 / 2097152))"
proof -
  define a where "a = max 0 borderA"
  define b where "b = max 0 borderB"
  have ab: "0 \<le> a" "0 \<le> b" "a + b < 2 ^ 63" using assms by (simp_all add: a_def b_def)
  have a': "(if borderA < 0 then 0 else borderA) = a" and b': "(if borderB < 0 then 0 else borderB) = b"
    by (simp_all add: a_def b_def max_def)
  have w: "wrap64 (a + b) = a + b" using ab by (intro wrap64_id) simp_all
  consider "totalSize \<le> 0" | "0 < totalSize" "a + b \<le> totalSize" | "0 < totalSize" "totalSize < a + b"
    by linarith
  then show ?thesis
  proof cases
    case 1
    then show ?thesis by (simp add: clampOpposingBorders_def)
  next
    case 2
    then show ?thesis using ab
      by (simp add: clampOpposingBorders_def a' b' w Let_def flip: a_def b_def)
  next
    case 3
    define p where
      "p = fmul (fdiv (float32_of_int a) (float32_of_int (a + b))) (float32_of_int totalSize)"
    define r where "r = int_of_float32 p"
    have fT: "f32 (of_int totalSize) \<le> of_int totalSize"
      using assms(3) 3 by (simp add: float32_of_int_def)
    have s: "0 \<le> p \<and> p \<le> of_int totalSize
       \<and> of_int (a * totalSize) / of_int (a + b) * (2097151 / 2097152) \<le> p
       \<and> p \<le> of_int (a * totalSize) / of_int (a + b) * (2097153 / 2097152)"
      unfolding p_def using ab 3 fT by (intro scaled_border_share) simp_all
    have rf: "r = \<lfloor>p\<rfloor>" unfolding r_def using s assms(1) by (intro int_of_float32_floor) simp_all
    have r: "0 \<le> r" "r \<le> totalSize" using s by (simp_all add: rf floor_le_iff)
    have rp: "p - 1 < of_int r" "(of_int r :: rat) \<le> p" unfolding rf by linarith+
    have lo: "of_int (a * totalSize) / of_int (a + b) * (2097151 / 2097152) - 1 < (of_int r :: rat)"
      using s rp by linarith
    have hi: "(of_int r :: rat) \<le> of_int (a * totalSize) / of_int (a + b) * (2097153 / 2097152)"
      using s rp by linarith
    have w2: "wrap64 (totalSize - r) = totalSize - r" using r assms(1) by (intro wrap64_id) simp_all
    have "clampOpposingBorders borderA borderB totalSize = (r, totalSize - r)"
      using 3 by (simp add: clampOpposingBorders_def a' b' w Let_def w2 flip: p_def r_def)
    then show ?thesis using r 3 lo hi rf unfolding p_def a_def b_def by simp
  qed
qed

text \<open>
  The theorem at borders of 40000000 each in a total of \<open>2^25\<close>: the pair is
  \<open>(2^24, 2^24)\<close>.
\<close>

theorem clampOpposingBorders_proportional_witness:
  "(33554432::int) < 2 ^ 63 \<and> max 0 (40000000::int) + max 0 40000000 < 2 ^ 63
   \<and> float32_of_int 33554432 \<le> of_int 33554432
   \<and> clampOpposingBorders 40000000 40000000 33554432 = (16777216, 16777216)
   \<and> fst (clampOpposingBorders 40000000 40000000 33554432)
       + snd (clampOpposingBorders 40000000 40000000 33554432) = 33554432"
proof -
  have e: "clampOpposingBorders 40000000 40000000 33554432 = (16777216, 16777216)" by code_simp
  have f: "float32_of_int 33554432 \<le> of_int 33554432" by code_simp
  have h: "(33554432::int) < 2 ^ 63" "max 0 (40000000::int) + max 0 40000000 < 2 ^ 63" by simp_all
  show ?thesis using clampOpposingBorders_proportional [OF h f] e f by simp
qed

text \<open>
  Claim C10 as stated fails on two kinds of input. A total that \<open>float32\<close> rounds up:
  \<open>float32(16777219)\<close> is \<open>16777220\<close>, the first border keeps that value and the second
  becomes \<open>-1\<close>. Borders whose sum overflows: \<open>2^62 + 2^62\<close> wraps to \<open>-2^63\<close>, which
  passes for fitting a total of 10, and both borders are returned as they came.
\<close>

theorem clampOpposingBorders_rounding_counterexample:
  "clampOpposingBorders 16777220 0 16777219 = (16777220, - 1)
   \<and> \<not> 0 \<le> snd (clampOpposingBorders 16777220 0 16777219)
   \<and> clampOpposingBorders 4611686018427387904 4611686018427387904 10
       = (4611686018427387904, 4611686018427387904)
   \<and> \<not> fst (clampOpposingBorders 4611686018427387904 4611686018427387904 10)
         + snd (clampOpposingBorders 4611686018427387904 4611686018427387904 10) \<le> max 10 0"
proof -
  have e: "clampOpposingBorders 16777220 0 16777219 = (16777220, - 1)" by code_simp
  have o: "clampOpposingBorders 4611686018427387904 4611686018427387904 10
       = (4611686018427387904, 4611686018427387904)" by code_simp
  show ?thesis unfolding e o by simp
qed

section \<open>The document model\<close>

text \<open>
  The parsed KRB document as the renderer reads it. The \<open>krb\<close> package is not part of the
  sources at hand; its types are transcribed from the fields the renderer accesses
  (\<open>doc.Strings\<close>, \<open>doc.Styles\<close>, \<open>doc.Elements\<close>, \<open>doc.Properties\<close>,
  \<open>doc.ChildRefs\<close>, \<open>doc.ElementStartOffsets\<close>, \<open>doc.ComponentDefinitions\<close>,
  \<open>doc.Header.Flags\<close>). \<open>doc.Header.ElementCount\<close> is the length of \<open>doc.Elements\<close>.
\<close>

datatype Color = Color (colR: u8) (colG: u8) (colB: u8) (colA: u8)

definition Blank :: Color where
  "Blank = Color 0 0 0 0"

record ElementHeader =
  Type :: u8
  ID :: u8
  PosX :: u16
  PosY :: u16
  Width :: u16
  Height :: u16
  Layout :: u8
  StyleID :: u8
  PropertyCount :: u8
  ChildCount :: u8
  EventCount :: u8
  AnimationCount :: u8
  CustomPropCount :: u8

record Property =
  PropID :: u8
  ValueType :: u8
  Size :: u8
  Value :: "u8 list"

record Style =
  Style_ID :: u8
  Style_NameIndex :: u8
  Style_Properties :: "Property list"

record KrbComponentDefinition =
  NameIndex :: u8
  RootElementTemplateData :: "u8 list"

record Document =
  Flags :: u16
  Strings :: "string list"
  Styles :: "Style list"
  Elements :: "ElementHeader list"
  Properties :: "Property list list"
  ChildRefs :: "u16 list list"
  ElementStartOffsets :: "u32 list"
  ComponentDefinitions :: "KrbComponentDefinition list"

section \<open>Render elements and the renderer's memory\<close>

text \<open>
  A \<open>*RenderElement\<close> is an address into a backing array of the slice \<open>r.elements\<close>: the
  number of the backing array (arrays are numbered in the order \<open>make\<close> allocates them) and
  the index in it. A \<open>RenderElement\<close> carries the fields of \<open>render.RenderElement\<close> that
  tree building, resolution and layout read or write; texture, event-handler and debug-name
  fields play no part in them and are left out. A \<open>nil\<close> slice and an empty one are both
  \<open>[]\<close>.
\<close>

type_synonym ptr = "nat \<times> nat"
type_synonym edges = "u8 \<times> u8 \<times> u8 \<times> u8"

record RenderElement =
  Header :: ElementHeader
  OriginalIndex :: nat
  Parent :: "ptr option"
  Children :: "ptr list"
  BgColor :: Color
  FgColor :: Color
  BorderColor :: Color
  BorderWidths :: edges
  Padding :: edges
  ResolvedFontSize :: rat
  TextAlignment :: u8
  Text :: string
  ResourceIndex :: u8
  RenderX :: rat
  RenderY :: rat
  RenderW :: rat
  RenderH :: rat
  IsVisible :: bool
  IsInteractive :: bool
  IsExpandedAsNestedComponent :: bool

record WindowConfig =
  DefaultFgColor :: Color
  DefaultBorderColor :: Color
  DefaultFontSize :: rat

text \<open>
  What the renderer takes from outside the sources at hand, as parameters: the constants of
  the \<open>krb\<close> package and the value decoders of the renderer's utility file.
\<close>

record krb =
  ElemTypeApp :: u8
  ElemTypeContainer :: u8
  ElemTypeText :: u8
  ElemTypeImage :: u8
  ElemTypeButton :: u8
  ElemTypeInput :: u8
  PropIDBgColor :: u8
  PropIDFgColor :: u8
  PropIDBorderColor :: u8
  PropIDBorderWidth :: u8
  PropIDPadding :: u8
  PropIDTextAlignment :: u8
  PropIDVisibility :: u8
  PropIDFontSize :: u8
  PropIDTextContent :: u8
  PropIDImageSource :: u8
  ValTypeString :: u8
  ValTypeResource :: u8
  FlagHasApp :: u16
  LayoutAlignStart :: u8
  EventFileEntrySize :: nat
  AnimationRefSize :: nat
  getColorValue :: "Property \<Rightarrow> u16 \<Rightarrow> Color option"
  getByteValue :: "Property \<Rightarrow> u8 option"
  getShortValue :: "Property \<Rightarrow> u16 option"
  getEdgeInsetsValue :: "Property \<Rightarrow> edges option"
  getStylePropertyValue :: "Style \<Rightarrow> u8 \<Rightarrow> Property option"
  GetCustomPropertyValue :: "RenderElement \<Rightarrow> string \<Rightarrow> Document \<Rightarrow> string \<times> bool"

definition InvalidResourceIndex :: u8 where
  "InvalidResourceIndex = 0xFF"

definition UnsetTextAlignmentSentinel :: u8 where
  "UnsetTextAlignmentSentinel = 0xFF"

definition componentNameConventionKey :: string where
  "componentNameConventionKey = ''_componentName''"

definition childrenSlotIDName :: string where
  "childrenSlotIDName = ''children_host''"

definition zeroElement :: RenderElement where
  "zeroElement = \<lparr>
     Header = \<lparr>Type = 0, ID = 0, PosX = 0, PosY = 0, Width = 0, Height = 0, Layout = 0,
       StyleID = 0, PropertyCount = 0, ChildCount = 0, EventCount = 0, AnimationCount = 0,
       CustomPropCount = 0\<rparr>,
     OriginalIndex = 0, Parent = None, Children = [],
     BgColor = Blank, FgColor = Blank, BorderColor = Blank,
     BorderWidths = (0, 0, 0, 0), Padding = (0, 0, 0, 0),
     ResolvedFontSize = 0, TextAlignment = 0, Text = [], ResourceIndex = 0,
     RenderX = 0, RenderY = 0, RenderW = 0, RenderH = 0,
     IsVisible = False, IsInteractive = False, IsExpandedAsNestedComponent = False\<rparr>"

subsection \<open>Lookups in the document\<close>

text \<open>
  Modelled from the spec: \<open>getStringValueByIdx\<close> is declared outside the sources at hand.
  The string table is an ordered sequence referenced by integer index, looked up by exact
  index; an index out of range is a recoverable failure.
\<close>

definition getStringValueByIdx :: "Document \<Rightarrow> u8 \<Rightarrow> string \<times> bool" where
  "getStringValueByIdx doc idx =
     (if unat idx < length (Strings doc) then (Strings doc ! unat idx, True) else ([], False))"

text \<open>
  Modelled from the spec: \<open>findStyle\<close> is declared outside the sources at hand. The style
  table maps a style-id to its property list, and style-id 0 means no style.
\<close>

definition findStyle :: "Document \<Rightarrow> u8 \<Rightarrow> Style option" where
  "findStyle doc sid = (if sid = 0 then None else find (\<lambda>s. Style_ID s = sid) (Styles doc))"

fun findStyleIDByName_loop :: "Document \<Rightarrow> string \<Rightarrow> Style list \<Rightarrow> u8" where
  "findStyleIDByName_loop doc name [] = 0"
| "findStyleIDByName_loop doc name (style # rest) =
     (case getStringValueByIdx doc (Style_NameIndex style) of
        (styleName, ok) \<Rightarrow>
          if ok \<and> styleName = name then Style_ID style
          else findStyleIDByName_loop doc name rest)"

definition findStyleIDByName :: "Document \<Rightarrow> string \<Rightarrow> u8" where
  "findStyleIDByName doc name = (if name = [] then 0 else findStyleIDByName_loop doc name (Styles doc))"

fun findComponentDefinition_loop ::
  "Document \<Rightarrow> string \<Rightarrow> KrbComponentDefinition list \<Rightarrow> KrbComponentDefinition option" where
  "findComponentDefinition_loop doc name [] = None"
| "findComponentDefinition_loop doc name (compDef # rest) =
     (if unat (NameIndex compDef) < length (Strings doc)
         \<and> Strings doc ! unat (NameIndex compDef) = name
      then Some compDef else findComponentDefinition_loop doc name rest)"

definition findComponentDefinition :: "Document \<Rightarrow> string \<Rightarrow> KrbComponentDefinition option" where
  "findComponentDefinition doc name =
     (if ComponentDefinitions doc = [] \<or> Strings doc = [] then None
      else findComponentDefinition_loop doc name (ComponentDefinitions doc))"

section \<open>Style and property resolution\<close>

definition isTextBearing :: "krb \<Rightarrow> RenderElement \<Rightarrow> bool" where
  "isTextBearing K el \<longleftrightarrow>
     Type (Header el) = ElemTypeText K \<or> Type (Header el) = ElemTypeButton K
     \<or> Type (Header el) = ElemTypeInput K"

definition applyStyleProperty :: "krb \<Rightarrow> Document \<Rightarrow> RenderElement \<Rightarrow> Property \<Rightarrow> RenderElement" where
  "applyStyleProperty K doc el prop =
     (if PropID prop = PropIDBgColor K then
        (case getColorValue K prop (Flags doc) of Some c \<Rightarrow> el\<lparr>BgColor := c\<rparr> | None \<Rightarrow> el)
      else if PropID prop = PropIDFgColor K then
        (case getColorValue K prop (Flags doc) of Some c \<Rightarrow> el\<lparr>FgColor := c\<rparr> | None \<Rightarrow> el)
      else if PropID prop = PropIDBorderColor K then
        (case getColorValue K prop (Flags doc) of Some c \<Rightarrow> el\<lparr>BorderColor := c\<rparr> | None \<Rightarrow> el)
      else if PropID prop = PropIDBorderWidth K then
        (case getByteValue K prop of
           Some bw \<Rightarrow> el\<lparr>BorderWidths := (bw, bw, bw, bw)\<rparr>
         | None \<Rightarrow>
            (case getEdgeInsetsValue K prop of
               Some e \<Rightarrow> el\<lparr>BorderWidths := e\<rparr> | None \<Rightarrow> el))
      else if PropID prop = PropIDPadding K then
        (case getEdgeInsetsValue K prop of Some p \<Rightarrow> el\<lparr>Padding := p\<rparr> | None \<Rightarrow> el)
      else if PropID prop = PropIDTextAlignment K then
        (case getByteValue K prop of Some align \<Rightarrow> el\<lparr>TextAlignment := align\<rparr> | None \<Rightarrow> el)
      else if PropID prop = PropIDVisibility K then
        (case getByteValue K prop of Some vis \<Rightarrow> el\<lparr>IsVisible := (vis \<noteq> 0)\<rparr> | None \<Rightarrow> el)
      else if PropID prop = PropIDFontSize K then
        (case getShortValue K prop of
           Some fsRaw \<Rightarrow> if 0 < fsRaw then el\<lparr>ResolvedFontSize := of_nat (unat fsRaw)\<rparr> else el
         | None \<Rightarrow> el)
      else el)"

definition applyStylePropertiesToElement ::
  "krb \<Rightarrow> Document \<Rightarrow> Property list \<Rightarrow> RenderElement \<Rightarrow> RenderElement" where
  "applyStylePropertiesToElement K doc props el = foldl (applyStyleProperty K doc) el props"

definition applyDirectProperty :: "krb \<Rightarrow> Document \<Rightarrow> RenderElement \<Rightarrow> Property \<Rightarrow> RenderElement" where
  "applyDirectProperty K doc el prop =
     (if PropID prop = PropIDBgColor K then
        (case getColorValue K prop (Flags doc) of Some c \<Rightarrow> el\<lparr>BgColor := c\<rparr> | None \<Rightarrow> el)
      else if PropID prop = PropIDFgColor K then
        (case getColorValue K prop (Flags doc) of Some c \<Rightarrow> el\<lparr>FgColor := c\<rparr> | None \<Rightarrow> el)
      else if PropID prop = PropIDBorderColor K then
        (case getColorValue K prop (Flags doc) of Some c \<Rightarrow> el\<lparr>BorderColor := c\<rparr> | None \<Rightarrow> el)
      else if PropID prop = PropIDBorderWidth K then
        (case getByteValue K prop of
           Some bw \<Rightarrow> el\<lparr>BorderWidths := (bw, bw, bw, bw)\<rparr>
         | None \<Rightarrow>
            (case getEdgeInsetsValue K prop of
               Some e \<Rightarrow> el\<lparr>BorderWidths := e\<rparr> | None \<Rightarrow> el))
      else if PropID prop = PropIDPadding K then
        (case getEdgeInsetsValue K prop of Some p \<Rightarrow> el\<lparr>Padding := p\<rparr> | None \<Rightarrow> el)
      else if PropID prop = PropIDTextAlignment K then
        (case getByteValue K prop of Some align \<Rightarrow> el\<lparr>TextAlignment := align\<rparr> | None \<Rightarrow> el)
      else if PropID prop = PropIDVisibility K then
        (case getByteValue K prop of Some vis \<Rightarrow> el\<lparr>IsVisible := (vis \<noteq> 0)\<rparr> | None \<Rightarrow> el)
      else if PropID prop = PropIDTextContent K then
        (case getByteValue K prop of
           Some strIdx \<Rightarrow>
             (case getStringValueByIdx doc strIdx of
                (textVal, textOk) \<Rightarrow> if textOk then el\<lparr>Text := textVal\<rparr> else el)
         | None \<Rightarrow> el)
      else if PropID prop = PropIDImageSource K then
        (case getByteValue K prop of Some resIdx \<Rightarrow> el\<lparr>ResourceIndex := resIdx\<rparr> | None \<Rightarrow> el)
      else if PropID prop = PropIDFontSize K then
        (case getShortValue K prop of
           Some fsRaw \<Rightarrow> if 0 < fsRaw then el\<lparr>ResolvedFontSize := of_nat (unat fsRaw)\<rparr> else el
         | None \<Rightarrow> el)
      else el)"

definition applyDirectPropertiesToElement ::
  "krb \<Rightarrow> Document \<Rightarrow> Property list \<Rightarrow> RenderElement \<Rightarrow> RenderElement" where
  "applyDirectPropertiesToElement K doc props el = foldl (applyDirectProperty K doc) el props"

definition applyDirectVisualAppProperty ::
  "krb \<Rightarrow> Document \<Rightarrow> RenderElement \<Rightarrow> Property \<Rightarrow> RenderElement" where
  "applyDirectVisualAppProperty K doc el prop =
     (if PropID prop = PropIDBgColor K then
        (case getColorValue K prop (Flags doc) of Some c \<Rightarrow> el\<lparr>BgColor := c\<rparr> | None \<Rightarrow> el)
      else if PropID prop = PropIDFgColor K then
        (case getColorValue K prop (Flags doc) of Some c \<Rightarrow> el\<lparr>FgColor := c\<rparr> | None \<Rightarrow> el)
      else if PropID prop = PropIDBorderColor K then
        (case getColorValue K prop (Flags doc) of Some c \<Rightarrow> el\<lparr>BorderColor := c\<rparr> | None \<Rightarrow> el)
      else if PropID prop = PropIDBorderWidth K then
        (case getByteValue K prop of
           Some bw \<Rightarrow> el\<lparr>BorderWidths := (bw, bw, bw, bw)\<rparr>
         | None \<Rightarrow>
            (case getEdgeInsetsValue K prop of
               Some e \<Rightarrow> el\<lparr>BorderWidths := e\<rparr> | None \<Rightarrow> el))
      else if PropID prop = PropIDPadding K then
        (case getEdgeInsetsValue K prop of Some p \<Rightarrow> el\<lparr>Padding := p\<rparr> | None \<Rightarrow> el)
      else if PropID prop = PropIDVisibility K then
        (case getByteValue K prop of Some vis \<Rightarrow> el\<lparr>IsVisible := (vis \<noteq> 0)\<rparr> | None \<Rightarrow> el)
      else if PropID prop = PropIDFontSize K then
        (case getShortValue K prop of
           Some fsRaw \<Rightarrow> if 0 < fsRaw then el\<lparr>ResolvedFontSize := of_nat (unat fsRaw)\<rparr> else el
         | None \<Rightarrow> el)
      else el)"

definition applyDirectVisualPropertiesToAppElement ::
  "krb \<Rightarrow> Document \<Rightarrow> Property list \<Rightarrow> RenderElement \<Rightarrow> RenderElement" where
  "applyDirectVisualPropertiesToAppElement K doc props el =
     foldl (applyDirectVisualAppProperty K doc) el props"

definition resolveElementTextAndImage ::
  "krb \<Rightarrow> Document \<Rightarrow> RenderElement \<Rightarrow> Style option \<Rightarrow> RenderElement" where
  "resolveElementTextAndImage K doc el style =
     (let el1 =
        (if (Type (Header el) = ElemTypeText K \<or> Type (Header el) = ElemTypeButton K) \<and> Text el = []
         then (case style of
                 None \<Rightarrow> el
               | Some s \<Rightarrow>
                  (case getStylePropertyValue K s (PropIDTextContent K) of
                     None \<Rightarrow> el
                   | Some styleProp \<Rightarrow>
                      (case getByteValue K styleProp of
                         None \<Rightarrow> el
                       | Some strIdx \<Rightarrow>
                          (case getStringValueByIdx doc strIdx of
                             (s', textOk) \<Rightarrow> if textOk then el\<lparr>Text := s'\<rparr> else el))))
         else el)
      in if (Type (Header el1) = ElemTypeImage K \<or> Type (Header el1) = ElemTypeButton K)
            \<and> ResourceIndex el1 = InvalidResourceIndex
         then (case style of
                 None \<Rightarrow> el1
               | Some s \<Rightarrow>
                  (case getStylePropertyValue K s (PropIDImageSource K) of
                     None \<Rightarrow> el1
                   | Some styleProp \<Rightarrow>
                      (case getByteValue K styleProp of
                         None \<Rightarrow> el1
                       | Some idx \<Rightarrow> el1\<lparr>ResourceIndex := idx\<rparr>)))
         else el1)"

definition applyContextualDefaults :: "WindowConfig \<Rightarrow> RenderElement \<Rightarrow> RenderElement" where
  "applyContextualDefaults cfg el =
     (let hasBorderColor = (0 < colA (BorderColor el));
          allBorderWidthsZero = (BorderWidths el = (0, 0, 0, 0))
      in if hasBorderColor \<and> allBorderWidthsZero then el\<lparr>BorderWidths := (1, 1, 1, 1)\<rparr>
         else if \<not> allBorderWidthsZero \<and> \<not> hasBorderColor
           then el\<lparr>BorderColor := DefaultBorderColor cfg\<rparr>
         else el)"

subsection \<open>The renderer's state\<close>

text \<open>
  \<open>arrays\<close> holds every backing array allocated for \<open>r.elements\<close>, in allocation order;
  \<open>elements\<close> is the slice \<open>r.elements\<close> itself: the number of its backing array and its
  length (its capacity is the length of that array). \<open>nextMasterIndex\<close> is the counter
  \<open>PrepareTree\<close> hands to every expansion by reference. Messages logged at warning or
  error level are collected in \<open>logs\<close>. A Go pointer always refers to allocated memory; \<open>validPtr\<close>
  says so of an address. The code never forms another address: reading through one yields
  the zero element here, and a store through one does nothing.
\<close>

datatype logmsg =
    WarnNoChildRefs nat
  | ErrorMissingStartOffset nat
  | ErrorChildRefUnmapped nat
  | WarnNoTemplateData
  | WarnNestedCompDefNotFound
  | ErrorTemplateChildNotFound nat
  | WarnNoSlotFound
  | ErrorRootNotContainer
  | ErrorNoTemplateRoot
  | ErrorExpandFailed nat
  | WarnCompDefNotFound nat
  | WarnStyleNotFound nat
  | WarnNoRoots
  | WarnParentTextAlignmentUnset
  | WarnElementOrDocumentNil
  | WarnReResolveStyleNotFound u8

record rstate =
  arrays :: "RenderElement list list"
  elements :: "nat \<times> nat"
  roots :: "ptr list"
  nextMasterIndex :: nat
  logs :: "logmsg list"

definition validPtr :: "rstate \<Rightarrow> ptr \<Rightarrow> bool" where
  "validPtr st p \<longleftrightarrow> fst p < length (arrays st) \<and> snd p < length (arrays st ! fst p)"

definition deref :: "rstate \<Rightarrow> ptr \<Rightarrow> RenderElement" where
  "deref st p = (if validPtr st p then arrays st ! fst p ! snd p else zeroElement)"

definition store :: "rstate \<Rightarrow> ptr \<Rightarrow> RenderElement \<Rightarrow> rstate" where
  "store st p e = st\<lparr>arrays := (arrays st)[fst p := (arrays st ! fst p)[snd p := e]]\<rparr>"

definition elemPtr :: "rstate \<Rightarrow> nat \<Rightarrow> ptr" where
  "elemPtr st i = (fst (elements st), i)"

definition logMsg :: "logmsg \<Rightarrow> rstate \<Rightarrow> rstate" where
  "logMsg m st = st\<lparr>logs := logs st @ [m]\<rparr>"

section \<open>Property inheritance\<close>

text \<open>
  The body of \<open>applyInheritanceRecursive\<close> on one element, given the three inherited values:
  the element after the three steps, and the foreground colour it hands to its children.
\<close>

definition inheritInto :: "krb \<Rightarrow> WindowConfig \<Rightarrow> RenderElement \<Rightarrow> Color \<Rightarrow> rat \<Rightarrow> u8 \<Rightarrow> RenderElement" where
  "inheritInto K cfg el inheritedFgColor inheritedFontSize inheritedTextAlignment =
     (let el1 = (if isTextBearing K el \<and> (FgColor el = Blank \<or> colA (FgColor el) = 0)
                 then (if 0 < colA inheritedFgColor then el\<lparr>FgColor := inheritedFgColor\<rparr>
                       else el\<lparr>FgColor := DefaultFgColor cfg\<rparr>)
                 else el);
          el2 = (if ResolvedFontSize el1 = 0 then el1\<lparr>ResolvedFontSize := inheritedFontSize\<rparr> else el1)
      in if TextAlignment el2 = UnsetTextAlignmentSentinel
         then el2\<lparr>TextAlignment := inheritedTextAlignment\<rparr> else el2)"

definition fgColorForChildren :: "RenderElement \<Rightarrow> Color \<Rightarrow> Color" where
  "fgColorForChildren el inheritedFgColor =
     (if colA (FgColor el) = 0 then inheritedFgColor else FgColor el)"

text \<open>
  The recursion over \<open>el.Children\<close> does not return on a cyclic children relation; the
  fuel bounds its depth, and \<open>None\<close> stands for not returning.
\<close>

fun applyInheritanceRecursive ::
    "nat \<Rightarrow> krb \<Rightarrow> WindowConfig \<Rightarrow> rstate \<Rightarrow> ptr \<Rightarrow> Color \<Rightarrow> rat \<Rightarrow> u8 \<Rightarrow> rstate option"
  and applyInheritanceToChildren ::
    "nat \<Rightarrow> krb \<Rightarrow> WindowConfig \<Rightarrow> rstate \<Rightarrow> ptr list \<Rightarrow> Color \<Rightarrow> rat \<Rightarrow> u8 \<Rightarrow> rstate option"
where
  "applyInheritanceRecursive 0 K cfg st el fg fs ta = None"
| "applyInheritanceRecursive (Suc n) K cfg st el fg fs ta =
     (let e = inheritInto K cfg (deref st el) fg fs ta
      in applyInheritanceToChildren n K cfg (store st el e) (Children e)
           (fgColorForChildren e fg) (ResolvedFontSize e) (TextAlignment e))"
| "applyInheritanceToChildren n K cfg st [] fg fs ta = Some st"
| "applyInheritanceToChildren n K cfg st (child # rest) fg fs ta =
     (case applyInheritanceRecursive n K cfg st child fg fs ta of
        None \<Rightarrow> None
      | Some st' \<Rightarrow> applyInheritanceToChildren n K cfg st' rest fg fs ta)"

text \<open>The part of \<open>resolvePropertyInheritance\<close> that resolves a root before recursing.\<close>

definition resolveRoot :: "krb \<Rightarrow> WindowConfig \<Rightarrow> RenderElement \<Rightarrow> RenderElement" where
  "resolveRoot K cfg rootEl =
     (let el1 = (if isTextBearing K rootEl \<and> (FgColor rootEl = Blank \<or> colA (FgColor rootEl) = 0)
                 then rootEl\<lparr>FgColor := DefaultFgColor cfg\<rparr> else rootEl);
          el2 = (if ResolvedFontSize el1 = 0 then el1\<lparr>ResolvedFontSize := DefaultFontSize cfg\<rparr> else el1)
      in if TextAlignment el2 = UnsetTextAlignmentSentinel
         then el2\<lparr>TextAlignment := LayoutAlignStart K\<rparr> else el2)"

fun resolveRoots :: "nat \<Rightarrow> krb \<Rightarrow> WindowConfig \<Rightarrow> rstate \<Rightarrow> ptr list \<Rightarrow> rstate option" where
  "resolveRoots n K cfg st [] = Some st"
| "resolveRoots n K cfg st (rootEl # rest) =
     (let e = resolveRoot K cfg (deref st rootEl);
          fgColorToPassToChildren = (if colA (FgColor e) = 0 then DefaultFgColor cfg else FgColor e)
      in case applyInheritanceRecursive n K cfg (store st rootEl e) rootEl
                fgColorToPassToChildren (ResolvedFontSize e) (TextAlignment e) of
           None \<Rightarrow> None
         | Some st' \<Rightarrow> resolveRoots n K cfg st' rest)"

definition resolvePropertyInheritance :: "nat \<Rightarrow> krb \<Rightarrow> WindowConfig \<Rightarrow> rstate \<Rightarrow> rstate option" where
  "resolvePropertyInheritance n K cfg st =
     (if roots st = [] then Some st else resolveRoots n K cfg st (roots st))"

section \<open>Re-resolving the visuals of one element\<close>

text \<open>
  The two upward walks over \<open>Parent\<close>; they do not return on a cyclic parent chain, so they
  take fuel as well.
\<close>

fun getEffectiveInheritedFgColor :: "nat \<Rightarrow> WindowConfig \<Rightarrow> rstate \<Rightarrow> ptr option \<Rightarrow> Color option" where
  "getEffectiveInheritedFgColor n cfg st None = Some (DefaultFgColor cfg)"
| "getEffectiveInheritedFgColor 0 cfg st (Some ancestor) = None"
| "getEffectiveInheritedFgColor (Suc n) cfg st (Some ancestor) =
     (if 0 < colA (FgColor (deref st ancestor)) then Some (FgColor (deref st ancestor))
      else getEffectiveInheritedFgColor n cfg st (Parent (deref st ancestor)))"

fun getEffectiveInheritedFontSize :: "nat \<Rightarrow> WindowConfig \<Rightarrow> rstate \<Rightarrow> ptr option \<Rightarrow> rat option" where
  "getEffectiveInheritedFontSize n cfg st None = Some (DefaultFontSize cfg)"
| "getEffectiveInheritedFontSize 0 cfg st (Some ancestor) = None"
| "getEffectiveInheritedFontSize (Suc n) cfg st (Some ancestor) =
     (if ResolvedFontSize (deref st ancestor) \<noteq> 0 then Some (ResolvedFontSize (deref st ancestor))
      else getEffectiveInheritedFontSize n cfg st (Parent (deref st ancestor)))"

text \<open>Steps 1 to 5 of \<open>ReResolveElementVisuals\<close>: reset, style, direct properties, defaults, content.\<close>

definition reapplyOwnVisuals :: "krb \<Rightarrow> Document \<Rightarrow> WindowConfig \<Rightarrow> RenderElement \<Rightarrow> RenderElement" where
  "reapplyOwnVisuals K doc cfg el =
     (let el0 = el\<lparr>BgColor := Blank, FgColor := Blank, BorderColor := Blank,
                   BorderWidths := (0, 0, 0, 0), Padding := (0, 0, 0, 0),
                   TextAlignment := UnsetTextAlignmentSentinel, ResolvedFontSize := 0\<rparr>;
          style = findStyle doc (StyleID (Header el0));
          el1 = (case style of
                   Some s \<Rightarrow> applyStylePropertiesToElement K doc (Style_Properties s) el0
                 | None \<Rightarrow> el0);
          el2 = (if OriginalIndex el1 < length (Properties doc)
                    \<and> Properties doc ! OriginalIndex el1 \<noteq> []
                 then applyDirectPropertiesToElement K doc (Properties doc ! OriginalIndex el1) el1
                 else el1);
          el3 = applyContextualDefaults cfg el2
      in resolveElementTextAndImage K doc el3 style)"

text \<open>The second half of step 6: the inherited values applied to the element itself.\<close>

definition applyInheritedToSelf ::
  "krb \<Rightarrow> WindowConfig \<Rightarrow> RenderElement \<Rightarrow> Color \<Rightarrow> rat \<Rightarrow> u8 \<Rightarrow> RenderElement" where
  "applyInheritedToSelf K cfg el inheritedFgColor inheritedFontSize inheritedTextAlignment =
     (let el1 = (if isTextBearing K el \<and> (FgColor el = Blank \<or> colA (FgColor el) = 0)
                 then el\<lparr>FgColor := inheritedFgColor\<rparr> else el);
          el2 = (if ResolvedFontSize el1 = 0 then el1\<lparr>ResolvedFontSize := inheritedFontSize\<rparr> else el1);
          el3 = (if TextAlignment el2 = UnsetTextAlignmentSentinel
                 then el2\<lparr>TextAlignment := inheritedTextAlignment\<rparr> else el2);
          el4 = (if TextAlignment el3 = UnsetTextAlignmentSentinel
                 then el3\<lparr>TextAlignment := LayoutAlignStart K\<rparr> else el3);
          el5 = (if isTextBearing K el4 \<and> colA (FgColor el4) = 0
                 then el4\<lparr>FgColor := DefaultFgColor cfg\<rparr> else el4)
      in if ResolvedFontSize el5 = 0 then el5\<lparr>ResolvedFontSize := DefaultFontSize cfg\<rparr> else el5)"

text \<open>
  Steps 1 to 6 of \<open>ReResolveElementVisuals\<close> on an element and a document that are not
  \<open>nil\<close>; the warning of step 2 is left to the caller below.
\<close>

definition reResolveSteps ::
  "nat \<Rightarrow> krb \<Rightarrow> Document \<Rightarrow> WindowConfig \<Rightarrow> rstate \<Rightarrow> ptr \<Rightarrow> rstate option" where
  "reResolveSteps n K doc cfg st el =
     (let e = reapplyOwnVisuals K doc cfg (deref st el);
          st1 = store st el e
      in case (case Parent e of
                 None \<Rightarrow> Some (DefaultFgColor cfg, DefaultFontSize cfg, LayoutAlignStart K, st1)
               | Some parent \<Rightarrow>
                  (case getEffectiveInheritedFgColor n cfg st1 (Some parent) of
                     None \<Rightarrow> None
                   | Some inheritedFgColor \<Rightarrow>
                      (case (if ResolvedFontSize (deref st1 parent) \<noteq> 0
                             then Some (ResolvedFontSize (deref st1 parent))
                             else getEffectiveInheritedFontSize n cfg st1 (Some parent)) of
                         None \<Rightarrow> None
                       | Some inheritedFontSize \<Rightarrow>
                          if TextAlignment (deref st1 parent) = UnsetTextAlignmentSentinel
                          then Some (inheritedFgColor, inheritedFontSize, colA (DefaultFgColor cfg),
                                     logMsg WarnParentTextAlignmentUnset st1)
                          else Some (inheritedFgColor, inheritedFontSize,
                                     TextAlignment (deref st1 parent), st1)))) of
           None \<Rightarrow> None
         | Some (inheritedFgColor, inheritedFontSize, inheritedTextAlignment, st2) \<Rightarrow>
             let e' = applyInheritedToSelf K cfg (deref st2 el)
                        inheritedFgColor inheritedFontSize inheritedTextAlignment;
                 computedFgColorForChildren =
                   (if colA (FgColor e') = 0 then inheritedFgColor else FgColor e');
                 computedFontSizeForChildren =
                   (if ResolvedFontSize e' = 0 then inheritedFontSize else ResolvedFontSize e')
             in applyInheritanceToChildren n K cfg (store st2 el e') (Children e')
                  computedFgColorForChildren computedFontSizeForChildren (TextAlignment e'))"

text \<open>
  \<open>ReResolveElementVisuals\<close>: \<open>el\<close> and \<open>r.docRef\<close> may be \<open>nil\<close> (\<open>None\<close>), and then
  the call logs a warning and returns. Nothing else is logged between the entry and the
  warning for a style-id that is not \<open>0\<close> and names no style, so that warning is logged
  first here.
\<close>

definition ReResolveElementVisuals ::
  "nat \<Rightarrow> krb \<Rightarrow> Document option \<Rightarrow> WindowConfig \<Rightarrow> rstate \<Rightarrow> ptr option \<Rightarrow> rstate option" where
  "ReResolveElementVisuals n K docRef cfg st elem =
     (case elem of
        None \<Rightarrow> Some (logMsg WarnElementOrDocumentNil st)
      | Some el \<Rightarrow>
         (case docRef of
            None \<Rightarrow> Some (logMsg WarnElementOrDocumentNil st)
          | Some doc \<Rightarrow>
              reResolveSteps n K doc cfg
                (if findStyle doc (StyleID (Header (deref st el))) = None
                    \<and> StyleID (Header (deref st el)) \<noteq> 0
                 then logMsg (WarnReResolveStyleNotFound (StyleID (Header (deref st el)))) st
                 else st)
                el))"

section \<open>Component expansion\<close>

text \<open>
  The template blob is read through a \<open>bytes.Reader\<close>: the bytes not yet read. A \<open>Read\<close>
  into a buffer of \<open>n\<close> bytes that the code accepts (no error, \<open>n\<close> bytes read) takes
  \<open>n\<close> bytes; at the end of the data, or with fewer than \<open>n\<close> bytes left, the code returns
  an error. Modelled from the spec: the fixed-size element header has 17 bytes (type,
  id-index, four 16-bit fields, layout, style-id, five counts), a child reference is one
  16-bit offset, and multi-byte fields are little-endian.
\<close>

datatype error = ExpandError | LinkError

definition readBytes :: "nat \<Rightarrow> u8 list \<Rightarrow> (u8 list \<times> u8 list) option" where
  "readBytes n bs = (if bs = [] \<or> length bs < n then None else Some (take n bs, drop n bs))"

definition ElementHeaderSize :: nat where
  "ElementHeaderSize = 17"

definition ChildRefSize :: nat where
  "ChildRefSize = 2"

definition ReadU16LE :: "u8 list \<Rightarrow> u16" where
  "ReadU16LE b = ucast (b ! 0) + 256 * ucast (b ! 1)"

definition decodeHeader :: "u8 list \<Rightarrow> ElementHeader" where
  "decodeHeader headerBuf = \<lparr>
     Type = headerBuf ! 0, ID = headerBuf ! 1,
     PosX = ReadU16LE (take 2 (drop 2 headerBuf)), PosY = ReadU16LE (take 2 (drop 4 headerBuf)),
     Width = ReadU16LE (take 2 (drop 6 headerBuf)), Height = ReadU16LE (take 2 (drop 8 headerBuf)),
     Layout = headerBuf ! 10, StyleID = headerBuf ! 11, PropertyCount = headerBuf ! 12,
     ChildCount = headerBuf ! 13, EventCount = headerBuf ! 14, AnimationCount = headerBuf ! 15,
     CustomPropCount = headerBuf ! 16\<rparr>"

fun readTemplateProps :: "nat \<Rightarrow> u8 list \<Rightarrow> (Property list \<times> u8 list) option" where
  "readTemplateProps 0 rd = Some ([], rd)"
| "readTemplateProps (Suc k) rd =
     (case readBytes 3 rd of
        None \<Rightarrow> None
      | Some (propHeaderBuf, rd1) \<Rightarrow>
         (case (if 0 < propHeaderBuf ! 2 then readBytes (unat (propHeaderBuf ! 2)) rd1
                else Some ([], rd1)) of
            None \<Rightarrow> None
          | Some (v, rd2) \<Rightarrow>
             (case readTemplateProps k rd2 of
                None \<Rightarrow> None
              | Some (props, rd3) \<Rightarrow>
                 Some (\<lparr>PropID = propHeaderBuf ! 0, ValueType = propHeaderBuf ! 1,
                         Size = propHeaderBuf ! 2, Value = v\<rparr> # props, rd3))))"

fun readTemplateCustomProps ::
  "krb \<Rightarrow> Document \<Rightarrow> nat \<Rightarrow> u8 list \<Rightarrow> string \<Rightarrow> (string \<times> u8 list) option" where
  "readTemplateCustomProps K doc 0 rd nested = Some (nested, rd)"
| "readTemplateCustomProps K doc (Suc k) rd nested =
     (case readBytes 3 rd of
        None \<Rightarrow> None
      | Some (customPropHeaderBuf, rd1) \<Rightarrow>
         (case (if 0 < customPropHeaderBuf ! 2 then readBytes (unat (customPropHeaderBuf ! 2)) rd1
                else Some ([], rd1)) of
            None \<Rightarrow> None
          | Some (cpropValue, rd2) \<Rightarrow>
             (case getStringValueByIdx doc (customPropHeaderBuf ! 0) of
                (keyName, keyOk) \<Rightarrow>
                  readTemplateCustomProps K doc k rd2
                    (if keyOk \<and> keyName = componentNameConventionKey
                        \<and> (customPropHeaderBuf ! 1 = ValTypeString K
                             \<or> customPropHeaderBuf ! 1 = ValTypeResource K)
                        \<and> customPropHeaderBuf ! 2 = 1 \<and> length cpropValue = 1
                     then (case getStringValueByIdx doc (cpropValue ! 0) of
                             (strVal, strOk) \<Rightarrow> if strOk then strVal else nested)
                     else nested))))"

fun readChildRefs :: "nat \<Rightarrow> u8 list \<Rightarrow> u16 list" where
  "readChildRefs 0 childRefBuf = []"
| "readChildRefs (Suc k) childRefBuf =
     ReadU16LE (take ChildRefSize childRefBuf) # readChildRefs k (drop ChildRefSize childRefBuf)"

text \<open>
  Taking the next global index: the counter is advanced, the slice is copied into a new
  backing array of capacity \<open>2 * cap + 20\<close> when the index has reached the capacity, and
  its length is extended to hold the index. Re-slicing beyond the capacity panics (\<open>None\<close>).
\<close>

definition allocElement :: "rstate \<Rightarrow> (nat \<times> rstate) option" where
  "allocElement st =
     (let newElGlobalIndex = nextMasterIndex st;
          st1 = st\<lparr>nextMasterIndex := newElGlobalIndex + 1\<rparr>;
          cap = length (arrays st1 ! fst (elements st1));
          len = snd (elements st1);
          st2 = (if cap \<le> newElGlobalIndex
                 then st1\<lparr>arrays := arrays st1 @
                            [take len (arrays st1 ! fst (elements st1))
                             @ replicate (cap * 2 + 20 - len) zeroElement],
                          elements := (length (arrays st1), len)\<rparr>
                 else st1)
      in if snd (elements st2) \<le> newElGlobalIndex
         then (if newElGlobalIndex + 1 \<le> length (arrays st2 ! fst (elements st2))
               then Some (newElGlobalIndex, st2\<lparr>elements := (fst (elements st2), newElGlobalIndex + 1)\<rparr>)
               else None)
         else Some (newElGlobalIndex, st2))"

definition initTemplateElement :: "krb \<Rightarrow> ElementHeader \<Rightarrow> nat \<Rightarrow> RenderElement \<Rightarrow> RenderElement" where
  "initTemplateElement K templateKrbHeader newElGlobalIndex newEl =
     newEl\<lparr>OriginalIndex := newElGlobalIndex, Header := templateKrbHeader,
       BgColor := Blank, FgColor := Blank, BorderColor := Blank,
       BorderWidths := (0, 0, 0, 0), Padding := (0, 0, 0, 0),
       TextAlignment := UnsetTextAlignmentSentinel, IsVisible := True,
       ResourceIndex := InvalidResourceIndex,
       IsInteractive := (Type templateKrbHeader = ElemTypeButton K
                         \<or> Type templateKrbHeader = ElemTypeInput K)\<rparr>"

text \<open>The style-id of the template root: the instance's, else the template's own.\<close>

definition resolvedStyleIDForTplRoot :: "ElementHeader \<Rightarrow> ElementHeader \<Rightarrow> u8" where
  "resolvedStyleIDForTplRoot instanceHeader templateKrbHeader =
     (if StyleID instanceHeader = 0 \<and> StyleID templateKrbHeader \<noteq> 0
      then StyleID templateKrbHeader else StyleID instanceHeader)"

definition styleTemplateRoot ::
  "krb \<Rightarrow> Document \<Rightarrow> ptr \<Rightarrow> RenderElement \<Rightarrow> ElementHeader \<Rightarrow> RenderElement \<Rightarrow> RenderElement" where
  "styleTemplateRoot K doc instancePtr instanceElement templateKrbHeader newEl =
     (let el1 = newEl\<lparr>Parent := Some instancePtr,
                  Header := (Header newEl)\<lparr>
                    ID := ID (Header instanceElement),
                    PosX := PosX (Header instanceElement),
                    PosY := PosY (Header instanceElement),
                    Width := Width (Header instanceElement),
                    Height := Height (Header instanceElement),
                    Layout := Layout (Header instanceElement),
                    StyleID := resolvedStyleIDForTplRoot (Header instanceElement) templateKrbHeader\<rparr>\<rparr>;
          el2 = (case findStyle doc (StyleID (Header el1)) of
                   Some style \<Rightarrow> applyStylePropertiesToElement K doc (Style_Properties style) el1
                 | None \<Rightarrow> el1)
      in if OriginalIndex instanceElement < length (Properties doc)
            \<and> Properties doc ! OriginalIndex instanceElement \<noteq> []
         then applyDirectPropertiesToElement K doc (Properties doc ! OriginalIndex instanceElement) el2
         else el2)"

definition styleTemplateChild ::
  "krb \<Rightarrow> Document \<Rightarrow> ElementHeader \<Rightarrow> Property list \<Rightarrow> RenderElement \<Rightarrow> RenderElement" where
  "styleTemplateChild K doc templateKrbHeader templateDirectProps newEl =
     (let el1 = (case findStyle doc (StyleID templateKrbHeader) of
                   Some style \<Rightarrow> applyStylePropertiesToElement K doc (Style_Properties style) newEl
                 | None \<Rightarrow> newEl)
      in applyDirectPropertiesToElement K doc templateDirectProps el1)"

definition finishTemplateElement :: "krb \<Rightarrow> Document \<Rightarrow> WindowConfig \<Rightarrow> RenderElement \<Rightarrow> RenderElement" where
  "finishTemplateElement K doc cfg newEl =
     (let el1 = applyContextualDefaults cfg newEl
      in resolveElementTextAndImage K doc el1 (findStyle doc (StyleID (Header el1))))"


text \<open>
  The breadth-first search for the slot. It visits allocated addresses only, which are all
  that a Go program can hold, each at most once.
\<close>

definition isSlot :: "Document \<Rightarrow> RenderElement \<Rightarrow> bool" where
  "isSlot doc el \<longleftrightarrow> fst (getStringValueByIdx doc (ID (Header el))) = childrenSlotIDName"

function slotSearch :: "Document \<Rightarrow> rstate \<Rightarrow> ptr list \<Rightarrow> ptr list \<Rightarrow> ptr option" where
  "slotSearch doc st queue visitedInSearch =
     (case queue of
        [] \<Rightarrow> None
      | currentNodeToSearch # rest \<Rightarrow>
          if currentNodeToSearch \<in> set visitedInSearch \<or> \<not> validPtr st currentNodeToSearch
          then slotSearch doc st rest visitedInSearch
          else if isSlot doc (deref st currentNodeToSearch) then Some currentNodeToSearch
          else slotSearch doc st
                 (rest @ filter (\<lambda>c. c \<notin> set (currentNodeToSearch # visitedInSearch))
                           (Children (deref st currentNodeToSearch)))
                 (currentNodeToSearch # visitedInSearch))"
  by pat_completeness auto

lemma finite_validPtr: "finite {p. validPtr st p}"
proof -
  have "{p. validPtr st p} \<subseteq> (SIGMA a:{..<length (arrays st)}. {..<length (arrays st ! a)})"
    by (auto simp: validPtr_def)
  then show ?thesis by (rule finite_subset) simp
qed

termination slotSearch
proof (relation "inv_image (less_than <*lex*> less_than)
         (\<lambda>(doc, st, queue, visited). (card {p. validPtr st p \<and> p \<notin> set visited}, length queue))",
       goal_cases)
  case 1
  show ?case by (intro wf_inv_image wf_lex_prod wf_less_than)
next
  case (2 doc st queue visitedInSearch c rest)
  then show ?case by simp
next
  case (3 doc st queue visitedInSearch c rest)
  then have n: "c \<notin> set visitedInSearch" "validPtr st c" by simp_all
  have "{p. validPtr st p \<and> p \<notin> set (c # visitedInSearch)}
        \<subset> {p. validPtr st p \<and> p \<notin> set visitedInSearch}"
    using n by auto
  moreover have "finite {p. validPtr st p \<and> p \<notin> set visitedInSearch}"
    using finite_validPtr [of st] by (rule rev_finite_subset) auto
  ultimately have "card {p. validPtr st p \<and> p \<notin> set (c # visitedInSearch)}
        < card {p. validPtr st p \<and> p \<notin> set visitedInSearch}"
    by (intro psubset_card_mono)
  then show ?case by simp
qed

text \<open>Setting \<open>child.Parent\<close> for every usage child, in order.\<close>

fun reparentAll :: "rstate \<Rightarrow> ptr \<Rightarrow> ptr list \<Rightarrow> rstate" where
  "reparentAll st parent [] = st"
| "reparentAll st parent (kryChild # rest) =
     reparentAll (store st kryChild ((deref st kryChild)\<lparr>Parent := Some parent\<rparr>)) parent rest"

definition appendChildren :: "rstate \<Rightarrow> ptr \<Rightarrow> ptr list \<Rightarrow> rstate" where
  "appendChildren st host kryUsageChildren =
     reparentAll
       (store st host ((deref st host)\<lparr>Children := Children (deref st host) @ kryUsageChildren\<rparr>))
       host kryUsageChildren"

definition slotUsageChildren :: "krb \<Rightarrow> Document \<Rightarrow> rstate \<Rightarrow> ptr \<Rightarrow> ptr list \<Rightarrow> rstate" where
  "slotUsageChildren K doc st instanceElement kryUsageChildren =
     (if kryUsageChildren = [] then st
      else
        case (case Children (deref st instanceElement) of
                [] \<Rightarrow> None
              | searchStartNode # _ \<Rightarrow> slotSearch doc st [searchStartNode] []) of
          Some slotElement \<Rightarrow> appendChildren st slotElement kryUsageChildren
        | None \<Rightarrow>
           (let st1 = logMsg WarnNoSlotFound st
            in case Children (deref st1 instanceElement) of
                 [] \<Rightarrow> logMsg ErrorNoTemplateRoot st1
               | firstRootInTemplate # _ \<Rightarrow>
                   if Type (Header (deref st1 firstRootInTemplate)) = ElemTypeContainer K
                   then appendChildren st1 firstRootInTemplate kryUsageChildren
                   else logMsg ErrorRootNotContainer st1))"

text \<open>Pass 2: linking the children the template declares for the elements of this expansion.\<close>

type_synonym childInfo = "nat \<times> u16 list \<times> nat"

fun linkTemplateChildRefs :: "rstate \<Rightarrow> nat \<Rightarrow> nat \<Rightarrow> (nat \<times> nat) list \<Rightarrow> u16 list \<Rightarrow> rstate" where
  "linkTemplateChildRefs st parentGlobalIndex parentHeaderOffsetInTemplate omap [] = st"
| "linkTemplateChildRefs st parentGlobalIndex parentHeaderOffsetInTemplate omap (childRef # rest) =
     (case map_of omap (parentHeaderOffsetInTemplate + unat childRef) of
        None \<Rightarrow>
          linkTemplateChildRefs (logMsg (ErrorTemplateChildNotFound parentGlobalIndex) st)
            parentGlobalIndex parentHeaderOffsetInTemplate omap rest
      | Some childGlobalIndex \<Rightarrow>
          let parentEl = elemPtr st parentGlobalIndex;
              childEl = elemPtr st childGlobalIndex;
              st1 = store st childEl ((deref st childEl)\<lparr>Parent := Some parentEl\<rparr>);
              st2 = store st1 parentEl
                      ((deref st1 parentEl)\<lparr>Children := Children (deref st1 parentEl) @ [childEl]\<rparr>)
          in linkTemplateChildRefs st2 parentGlobalIndex parentHeaderOffsetInTemplate omap rest)"

fun expandPass2 :: "rstate \<Rightarrow> (nat \<times> nat) list \<Rightarrow> childInfo list \<Rightarrow> rstate" where
  "expandPass2 st omap [] = st"
| "expandPass2 st omap ((parentGlobalIndex, childRefs, parentHeaderOffsetInTemplate) # rest) =
     (let parentEl = elemPtr st parentGlobalIndex
      in if IsExpandedAsNestedComponent (deref st parentEl) then expandPass2 st omap rest
         else if Children (deref st parentEl) \<noteq> []
                 \<and> list_all (\<lambda>child. Parent (deref st child) = Some parentEl)
                      (Children (deref st parentEl))
           then expandPass2 st omap rest
         else expandPass2
                (linkTemplateChildRefs (store st parentEl ((deref st parentEl)\<lparr>Children := []\<rparr>))
                   parentGlobalIndex parentHeaderOffsetInTemplate omap childRefs)
                omap rest)"

definition finalizeInstance :: "rstate \<Rightarrow> ptr \<Rightarrow> nat option \<Rightarrow> rstate" where
  "finalizeInstance st instanceElement currentTemplateRootGlobalIndex =
     (case currentTemplateRootGlobalIndex of
        Some r \<Rightarrow> store st instanceElement ((deref st instanceElement)\<lparr>Children := [elemPtr st r]\<rparr>)
      | None \<Rightarrow> st)"

text \<open>
  Pass 1 and the whole expansion. The locals of the loop are the reader, the offset of the
  next header in the template, the global index of the template root once there is one,
  the child-reference information collected for pass 2 and the map from template offsets
  to global indices. A nested expansion may recurse without end when component
  definitions refer to each other in a cycle; the fuel bounds the number of loop rounds
  and nested calls, and the outer \<open>None\<close> stands for a call that does not return.
\<close>

record pass1 =
  templateReader :: "u8 list"
  templateDataStreamOffset :: nat
  currentTemplateRootGlobalIndex :: "nat option"
  localTemplateChildInfos :: "childInfo list"
  localTemplateOffsetToGlobalIndex :: "(nat \<times> nat) list"

text \<open>
  One round of the pass-1 loop up to the point where a nested component would be expanded:
  \<open>None\<close> for a panic, \<open>Inl\<close> the state in which the round returned an error, \<open>Inr\<close>
  the state, the locals for the next round, the new element and the name of the nested
  component it stands for (empty if none).
\<close>

definition createTemplateElement ::
  "krb \<Rightarrow> Document \<Rightarrow> WindowConfig \<Rightarrow> rstate \<Rightarrow> ptr \<Rightarrow> pass1
     \<Rightarrow> (rstate + rstate \<times> pass1 \<times> ptr \<times> string) option" where
  "createTemplateElement K doc cfg st instanceElement L =
     (case readBytes ElementHeaderSize (templateReader L) of
        None \<Rightarrow> Some (Inl st)
      | Some (headerBuf, rd1) \<Rightarrow>
        let templateKrbHeader = decodeHeader headerBuf in
        case allocElement st of
          None \<Rightarrow> None
        | Some (newElGlobalIndex, st1) \<Rightarrow>
        let newEl = elemPtr st1 newElGlobalIndex;
            st2 = store st1 newEl (initTemplateElement K templateKrbHeader newElGlobalIndex (deref st1 newEl));
            omap = (templateDataStreamOffset L, newElGlobalIndex) # localTemplateOffsetToGlobalIndex L
        in
        case readTemplateProps (unat (PropertyCount templateKrbHeader)) rd1 of
          None \<Rightarrow> Some (Inl st2)
        | Some (templateDirectProps, rd2) \<Rightarrow>
        case readTemplateCustomProps K doc (unat (CustomPropCount templateKrbHeader)) rd2 [] of
          None \<Rightarrow> Some (Inl st2)
        | Some (nestedComponentNameForThisNewEl, rd3) \<Rightarrow>
        let rootIndex = (case currentTemplateRootGlobalIndex L of
                      None \<Rightarrow> Some newElGlobalIndex | Some r \<Rightarrow> Some r);
            styled = (case currentTemplateRootGlobalIndex L of
                        None \<Rightarrow> styleTemplateRoot K doc instanceElement (deref st2 instanceElement)
                                 templateKrbHeader (deref st2 newEl)
                      | Some r \<Rightarrow> styleTemplateChild K doc templateKrbHeader templateDirectProps
                                  (deref st2 newEl));
            st3 = store st2 newEl (finishTemplateElement K doc cfg styled)
        in
        case (if 0 < EventCount templateKrbHeader
              then readBytes (unat (EventCount templateKrbHeader) * EventFileEntrySize K) rd3
              else Some ([], rd3)) of
          None \<Rightarrow> Some (Inl st3)
        | Some (eventBuf, rd4) \<Rightarrow>
        let rd5 = (if 0 < AnimationCount templateKrbHeader
                   then drop (unat (AnimationCount templateKrbHeader) * AnimationRefSize K) rd4
                   else rd4)
        in
        case (if 0 < ChildCount templateKrbHeader
              then readBytes (unat (ChildCount templateKrbHeader) * ChildRefSize) rd5
              else Some ([], rd5)) of
          None \<Rightarrow> Some (Inl st3)
        | Some (childRefBuf, rd6) \<Rightarrow>
        let infos = (if 0 < ChildCount templateKrbHeader
                     then localTemplateChildInfos L @
                            [(newElGlobalIndex,
                              readChildRefs (unat (ChildCount templateKrbHeader)) childRefBuf,
                              templateDataStreamOffset L)]
                     else localTemplateChildInfos L)
        in Some (Inr (st3,
             \<lparr>templateReader = rd6,
              templateDataStreamOffset =
                templateDataStreamOffset L + (length (templateReader L) - length rd4)
                + (if 0 < AnimationCount templateKrbHeader
                   then unat (AnimationCount templateKrbHeader) * AnimationRefSize K else 0)
                + length childRefBuf,
              currentTemplateRootGlobalIndex = rootIndex,
              localTemplateChildInfos = infos,
              localTemplateOffsetToGlobalIndex = omap\<rparr>,
             newEl, nestedComponentNameForThisNewEl)))"

definition initialPass1 :: "KrbComponentDefinition \<Rightarrow> pass1" where
  "initialPass1 compDef =
     \<lparr>templateReader = RootElementTemplateData compDef, templateDataStreamOffset = 0,
      currentTemplateRootGlobalIndex = None, localTemplateChildInfos = [],
      localTemplateOffsetToGlobalIndex = []\<rparr>"

definition finishExpansion ::
  "krb \<Rightarrow> Document \<Rightarrow> rstate \<Rightarrow> ptr \<Rightarrow> pass1 \<Rightarrow> ptr list \<Rightarrow> rstate" where
  "finishExpansion K doc st1 instanceElement L kryUsageChildren =
     (let st2 = expandPass2 st1 (localTemplateOffsetToGlobalIndex L) (localTemplateChildInfos L);
          st3 = finalizeInstance st2 instanceElement (currentTemplateRootGlobalIndex L)
      in slotUsageChildren K doc st3 instanceElement kryUsageChildren)"

text \<open>The state after pass 2 and after the instance has got the template root as its child.\<close>

definition linkedExpansion :: "rstate \<Rightarrow> ptr \<Rightarrow> pass1 \<Rightarrow> rstate" where
  "linkedExpansion st1 instanceElement L =
     finalizeInstance
       (expandPass2 st1 (localTemplateOffsetToGlobalIndex L) (localTemplateChildInfos L))
       instanceElement (currentTemplateRootGlobalIndex L)"

definition expandWithoutTemplate :: "krb \<Rightarrow> rstate \<Rightarrow> ptr \<Rightarrow> ptr list \<Rightarrow> rstate" where
  "expandWithoutTemplate K st instanceElement kryUsageChildren =
     (let st1 = logMsg WarnNoTemplateData st
      in if kryUsageChildren \<noteq> []
            \<and> Type (Header (deref st1 instanceElement)) = ElemTypeContainer K
         then appendChildren st1 instanceElement kryUsageChildren
         else st1)"

fun expandComponent ::
    "nat \<Rightarrow> krb \<Rightarrow> Document \<Rightarrow> WindowConfig \<Rightarrow> rstate \<Rightarrow> ptr \<Rightarrow> KrbComponentDefinition \<Rightarrow> ptr list
       \<Rightarrow> (error option \<times> rstate) option"
  and expandPass1 ::
    "nat \<Rightarrow> krb \<Rightarrow> Document \<Rightarrow> WindowConfig \<Rightarrow> rstate \<Rightarrow> ptr \<Rightarrow> pass1
       \<Rightarrow> (error option \<times> rstate \<times> pass1) option"
where
  "expandComponent 0 K doc cfg st instanceElement compDef kryUsageChildren = None"
| "expandComponent (Suc n) K doc cfg st instanceElement compDef kryUsageChildren =
     (if RootElementTemplateData compDef = []
      then Some (None, expandWithoutTemplate K st instanceElement kryUsageChildren)
      else
        case expandPass1 n K doc cfg st instanceElement (initialPass1 compDef) of
          None \<Rightarrow> None
        | Some (Some err, st1, L) \<Rightarrow> Some (Some err, st1)
        | Some (None, st1, L) \<Rightarrow>
            Some (None, finishExpansion K doc st1 instanceElement L kryUsageChildren))"
| "expandPass1 0 K doc cfg st instanceElement L = None"
| "expandPass1 (Suc n) K doc cfg st instanceElement L =
     (if templateReader L = [] then Some (None, st, L)
      else
        case createTemplateElement K doc cfg st instanceElement L of
          None \<Rightarrow> None
        | Some (Inl st1) \<Rightarrow> Some (Some ExpandError, st1, L)
        | Some (Inr (st3, L', newEl, nestedComponentNameForThisNewEl)) \<Rightarrow>
            if nestedComponentNameForThisNewEl \<noteq> [] then
              (case findComponentDefinition doc nestedComponentNameForThisNewEl of
                 None \<Rightarrow>
                   expandPass1 n K doc cfg (logMsg WarnNestedCompDefNotFound st3) instanceElement L'
               | Some nestedCompDef \<Rightarrow>
                  (case expandComponent n K doc cfg
                          (store st3 newEl ((deref st3 newEl)\<lparr>IsExpandedAsNestedComponent := True\<rparr>))
                          newEl nestedCompDef [] of
                     None \<Rightarrow> None
                   | Some (Some err, st4) \<Rightarrow> Some (Some ExpandError, st4, L')
                   | Some (None, st4) \<Rightarrow> expandPass1 n K doc cfg st4 instanceElement L'))
            else expandPass1 n K doc cfg st3 instanceElement L')"


section \<open>Building the tree\<close>

text \<open>
  \<open>PrepareTree\<close> from step 3 on; the window configuration that steps 1 and 2 derive from
  the defaults and the App element is an input. Phase 1 creates one element per document
  element.
\<close>

definition isAppElementPresent :: "krb \<Rightarrow> Document \<Rightarrow> bool" where
  "isAppElementPresent K doc \<longleftrightarrow>
     and (Flags doc) (FlagHasApp K) \<noteq> 0 \<and> Elements doc \<noteq> []
     \<and> Type (Elements doc ! 0) = ElemTypeApp K"

definition initElement :: "krb \<Rightarrow> Document \<Rightarrow> WindowConfig \<Rightarrow> nat \<Rightarrow> RenderElement" where
  "initElement K doc cfg i =
     (let krbElHeader = Elements doc ! i;
          el0 = zeroElement\<lparr>Header := krbElHeader, OriginalIndex := i,
                  BgColor := Blank, FgColor := Blank, BorderColor := Blank,
                  BorderWidths := (0, 0, 0, 0), Padding := (0, 0, 0, 0),
                  TextAlignment := LayoutAlignStart K, IsVisible := True,
                  IsInteractive := (Type krbElHeader = ElemTypeButton K
                                    \<or> Type krbElHeader = ElemTypeInput K),
                  ResourceIndex := InvalidResourceIndex\<rparr>;
          elementStyle = findStyle doc (StyleID krbElHeader);
          el1 = (case elementStyle of
                   Some style \<Rightarrow> applyStylePropertiesToElement K doc (Style_Properties style) el0
                 | None \<Rightarrow> el0);
          el2 = (if i < length (Properties doc) \<and> Properties doc ! i \<noteq> []
                 then (if i = 0 \<and> isAppElementPresent K doc
                       then applyDirectVisualPropertiesToAppElement K doc (Properties doc ! 0) el1
                       else applyDirectPropertiesToElement K doc (Properties doc ! i) el1)
                 else el1)
      in applyContextualDefaults cfg (resolveElementTextAndImage K doc el2 elementStyle))"

definition initLogs :: "krb \<Rightarrow> Document \<Rightarrow> logmsg list" where
  "initLogs K doc =
     map WarnStyleNotFound
       (filter (\<lambda>i. findStyle doc (StyleID (Elements doc ! i)) = None
                    \<and> StyleID (Elements doc ! i) \<noteq> 0
                    \<and> \<not> (i = 0 \<and> isAppElementPresent K doc))
          [0..<length (Elements doc)])"

definition initialState :: "krb \<Rightarrow> Document \<Rightarrow> WindowConfig \<Rightarrow> rstate" where
  "initialState K doc cfg =
     (let initialElementCount = length (Elements doc)
      in \<lparr>arrays = [map (initElement K doc cfg) [0..<initialElementCount]
                     @ replicate initialElementCount zeroElement],
          elements = (0, initialElementCount), roots = [],
          nextMasterIndex = initialElementCount, logs = initLogs K doc\<rparr>)"

text \<open>
  \<open>linkOriginalKrbChildren\<close>. The offset map is built in element order, a later element
  replacing an earlier one with the same start offset; the child offset is added to the
  parent's start offset in \<open>uint32\<close>. The usage children stashed for the placeholders are
  returned as a map from element index to addresses.
\<close>

definition offsetToInitialElementIndex :: "Document \<Rightarrow> nat \<Rightarrow> (u32 \<times> nat) list" where
  "offsetToInitialElementIndex doc initialElementCount =
     rev (zip (take initialElementCount (ElementStartOffsets doc)) [0..<initialElementCount])"

fun resolveChildRefs :: "rstate \<Rightarrow> (u32 \<times> nat) list \<Rightarrow> nat \<Rightarrow> u32 \<Rightarrow> u16 list \<Rightarrow> ptr list \<times> rstate" where
  "resolveChildRefs st omap i parentStartOffset [] = ([], st)"
| "resolveChildRefs st omap i parentStartOffset (childRef # rest) =
     (case map_of omap (parentStartOffset + ucast childRef) of
        None \<Rightarrow> resolveChildRefs (logMsg (ErrorChildRefUnmapped i) st) omap i parentStartOffset rest
      | Some childIndexInInitialElements \<Rightarrow>
          (case resolveChildRefs st omap i parentStartOffset rest of
             (actualChildren, st') \<Rightarrow> (elemPtr st childIndexInInitialElements # actualChildren, st')))"

definition isPlaceholder :: "krb \<Rightarrow> Document \<Rightarrow> RenderElement \<Rightarrow> bool" where
  "isPlaceholder K doc el \<longleftrightarrow> fst (GetCustomPropertyValue K el componentNameConventionKey doc) \<noteq> []"

definition linkElement ::
  "krb \<Rightarrow> Document \<Rightarrow> (u32 \<times> nat) list \<Rightarrow> rstate \<times> (nat \<times> ptr list) list \<Rightarrow> nat
     \<Rightarrow> rstate \<times> (nat \<times> ptr list) list" where
  "linkElement K doc omap acc i =
     (case acc of (st, kryUsageChildrenMap) \<Rightarrow>
       let currentEl = elemPtr st i in
       if 0 < ChildCount (Elements doc ! i) then
         (if length (ChildRefs doc) \<le> i \<or> ChildRefs doc ! i = []
          then (logMsg (WarnNoChildRefs i) st, kryUsageChildrenMap)
          else if length (ElementStartOffsets doc) \<le> i
          then (logMsg (ErrorMissingStartOffset i) st, kryUsageChildrenMap)
          else
            case resolveChildRefs st omap i (ElementStartOffsets doc ! i) (ChildRefs doc ! i) of
              (actualChildren, st1) \<Rightarrow>
                if isPlaceholder K doc (deref st1 currentEl)
                then (st1, (i, actualChildren) # kryUsageChildrenMap)
                else (reparentAll (store st1 currentEl ((deref st1 currentEl)\<lparr>Children := actualChildren\<rparr>))
                        currentEl actualChildren,
                      kryUsageChildrenMap))
       else (st, kryUsageChildrenMap))"

definition linkOriginalKrbChildren ::
  "krb \<Rightarrow> Document \<Rightarrow> rstate \<Rightarrow> nat \<Rightarrow> error + rstate \<times> (nat \<times> ptr list) list" where
  "linkOriginalKrbChildren K doc st initialElementCount =
     (if ElementStartOffsets doc = [] then Inl LinkError
      else Inr (foldl (linkElement K doc (offsetToInitialElementIndex doc initialElementCount))
                  (st, []) [0..<initialElementCount]))"

text \<open>The loop of \<open>PrepareTree\<close> that expands every placeholder among the first elements.\<close>

definition usageChildrenOf :: "(nat \<times> ptr list) list \<Rightarrow> nat \<Rightarrow> ptr list" where
  "usageChildrenOf kryUsageChildrenMap i = (case map_of kryUsageChildrenMap i of None \<Rightarrow> [] | Some cs \<Rightarrow> cs)"

fun expandInstances ::
  "nat \<Rightarrow> krb \<Rightarrow> Document \<Rightarrow> WindowConfig \<Rightarrow> (nat \<times> ptr list) list \<Rightarrow> rstate \<Rightarrow> nat list \<Rightarrow> rstate option" where
  "expandInstances n K doc cfg kryUsageChildrenMap st [] = Some st"
| "expandInstances n K doc cfg kryUsageChildrenMap st (i # rest) =
     (let instanceElement = elemPtr st i;
          componentName = fst (GetCustomPropertyValue K (deref st instanceElement) componentNameConventionKey doc)
      in if componentName \<noteq> [] then
           (case findComponentDefinition doc componentName of
              None \<Rightarrow> expandInstances n K doc cfg kryUsageChildrenMap (logMsg (WarnCompDefNotFound i) st) rest
            | Some compDef \<Rightarrow>
               (case expandComponent n K doc cfg st instanceElement compDef
                       (usageChildrenOf kryUsageChildrenMap (OriginalIndex (deref st instanceElement))) of
                  None \<Rightarrow> None
                | Some (Some err, st1) \<Rightarrow>
                    expandInstances n K doc cfg kryUsageChildrenMap (logMsg (ErrorExpandFailed i) st1) rest
                | Some (None, st1) \<Rightarrow> expandInstances n K doc cfg kryUsageChildrenMap st1 rest))
         else expandInstances n K doc cfg kryUsageChildrenMap st rest)"

definition finalizeTreeStructureAndRoots :: "rstate \<Rightarrow> rstate" where
  "finalizeTreeStructureAndRoots st =
     (if snd (elements st) = 0 then st\<lparr>roots := []\<rparr>
      else
        let rs = filter (\<lambda>el. Parent (deref st el) = None)
                   (map (elemPtr st) [0..<snd (elements st)]);
            st1 = st\<lparr>roots := rs\<rparr>
        in if rs = [] then logMsg WarnNoRoots st1 else st1)"

definition PrepareTree :: "nat \<Rightarrow> krb \<Rightarrow> Document \<Rightarrow> WindowConfig \<Rightarrow> (error option \<times> rstate) option" where
  "PrepareTree n K doc cfg =
     (let initialElementCount = length (Elements doc)
      in if initialElementCount = 0
         then Some (None, \<lparr>arrays = [], elements = (0, 0), roots = [], nextMasterIndex = 0, logs = []\<rparr>)
         else
           case linkOriginalKrbChildren K doc (initialState K doc cfg) initialElementCount of
             Inl err \<Rightarrow> Some (Some err, initialState K doc cfg)
           | Inr (st1, kryUsageChildrenMap) \<Rightarrow>
              (case expandInstances n K doc cfg kryUsageChildrenMap st1 [0..<initialElementCount] of
                 None \<Rightarrow> None
               | Some st2 \<Rightarrow>
                  (case resolvePropertyInheritance n K cfg (finalizeTreeStructureAndRoots st2) of
                     None \<Rightarrow> None
                   | Some st3 \<Rightarrow> Some (None, st3))))"

section \<open>What re-resolution leaves alone\<close>

text \<open>
  \<open>structureOf\<close> is an element without its visual state: header, index, parent, children,
  geometry and the two flags that no resolver writes. \<open>ownFieldsOf\<close> is an element without
  the three fields the inheritance pass fills in (foreground colour, font size, text
  alignment). \<open>descendants st el\<close> are the addresses reachable from \<open>el\<close> through
  \<open>Children\<close>.
\<close>

definition structureOf ::
  "RenderElement \<Rightarrow> ElementHeader \<times> nat \<times> ptr option \<times> ptr list \<times> rat \<times> rat \<times> rat \<times> rat \<times> bool \<times> bool" where
  "structureOf e = (Header e, OriginalIndex e, Parent e, Children e, RenderX e, RenderY e,
     RenderW e, RenderH e, IsInteractive e, IsExpandedAsNestedComponent e)"

definition ownFieldsOf ::
  "RenderElement \<Rightarrow> (ElementHeader \<times> nat \<times> ptr option \<times> ptr list \<times> rat \<times> rat \<times> rat \<times> rat \<times> bool \<times> bool)
     \<times> Color \<times> Color \<times> edges \<times> edges \<times> string \<times> u8 \<times> bool" where
  "ownFieldsOf e = (structureOf e, BgColor e, BorderColor e, BorderWidths e, Padding e, Text e,
     ResourceIndex e, IsVisible e)"

inductive_set descendants :: "rstate \<Rightarrow> ptr \<Rightarrow> ptr set" for st :: rstate and el :: ptr where
  child: "c \<in> set (Children (deref st el)) \<Longrightarrow> c \<in> descendants st el"
| step: "p \<in> descendants st el \<Longrightarrow> c \<in> set (Children (deref st p)) \<Longrightarrow> c \<in> descendants st el"

subsection \<open>Reads and writes through addresses\<close>

lemma map_update_same: "f e = f (xs ! i) \<Longrightarrow> map f (xs[i := e]) = map f xs"
  by (cases "i < length xs") (simp_all add: map_update list_update_same_conv list_update_beyond)

lemma validPtr_store [simp]: "validPtr (store st p e) q = validPtr st q"
  by (cases "fst q = fst p") (auto simp: validPtr_def store_def)

lemma deref_store: "deref (store st p e) q = (if q = p \<and> validPtr st p then e else deref st q)"
proof (cases "validPtr st q")
  case False
  then show ?thesis by (auto simp: deref_def)
next
  case True
  show ?thesis
  proof (cases "q = p")
    case True
    with \<open>validPtr st q\<close> show ?thesis by (simp add: deref_def) (simp add: store_def validPtr_def)
  next
    case False
    have "arrays (store st p e) ! fst q ! snd q = arrays st ! fst q ! snd q"
    proof (cases "fst q = fst p")
      case True
      with False have "snd q \<noteq> snd p" by (simp add: prod_eq_iff)
      then show ?thesis using True \<open>validPtr st q\<close> by (simp add: store_def validPtr_def)
    next
      case False
      then show ?thesis by (simp add: store_def)
    qed
    then show ?thesis using False \<open>validPtr st q\<close> by (simp add: deref_def)
  qed
qed

lemma store_same_image:
  assumes "f e = f (deref st p)"
  shows "map (map f) (arrays (store st p e)) = map (map f) (arrays st)"
proof (cases "validPtr st p")
  case True
  then have "map f ((arrays st ! fst p)[snd p := e]) = map f (arrays st ! fst p)"
    using assms by (intro map_update_same) (simp add: deref_def)
  then show ?thesis by (simp add: store_def map_update_same)
next
  case False
  then have "(arrays st)[fst p := (arrays st ! fst p)[snd p := e]] = arrays st"
    by (auto simp: validPtr_def not_less list_update_beyond list_update_same_conv)
  then show ?thesis by (simp add: store_def)
qed

lemma same_image_validPtr:
  assumes "map (map f) (arrays st') = map (map f) (arrays st)"
  shows "validPtr st' p = validPtr st p"
proof -
  have l: "length (arrays st') = length (arrays st)" using assms by (metis length_map)
  have "fst p < length (arrays st) \<Longrightarrow> length (arrays st' ! fst p) = length (arrays st ! fst p)"
    using assms l by (metis length_map nth_map)
  then show ?thesis using l by (auto simp: validPtr_def)
qed

lemma same_image_deref:
  assumes "map (map f) (arrays st') = map (map f) (arrays st)"
  shows "f (deref st' p) = f (deref st p)"
proof (cases "validPtr st p")
  case True
  then have v: "validPtr st' p" using same_image_validPtr [OF assms] by simp
  have l: "length (arrays st') = length (arrays st)" using assms by (metis length_map)
  have a: "map f (arrays st' ! fst p) = map f (arrays st ! fst p)"
    using assms l True by (metis validPtr_def nth_map)
  then have "f (arrays st' ! fst p ! snd p) = f (arrays st ! fst p ! snd p)"
    using True v by (metis validPtr_def nth_map)
  then show ?thesis using True v by (simp add: deref_def)
next
  case False
  then show ?thesis using same_image_validPtr [OF assms, of p] by (simp add: deref_def)
qed

lemma structureOf_updates [simp]:
  "structureOf (el\<lparr>BgColor := c\<rparr>) = structureOf el"
  "structureOf (el\<lparr>FgColor := c\<rparr>) = structureOf el"
  "structureOf (el\<lparr>BorderColor := c\<rparr>) = structureOf el"
  "structureOf (el\<lparr>BorderWidths := w\<rparr>) = structureOf el"
  "structureOf (el\<lparr>Padding := w\<rparr>) = structureOf el"
  "structureOf (el\<lparr>ResolvedFontSize := x\<rparr>) = structureOf el"
  "structureOf (el\<lparr>TextAlignment := t\<rparr>) = structureOf el"
  "structureOf (el\<lparr>Text := s\<rparr>) = structureOf el"
  "structureOf (el\<lparr>ResourceIndex := i\<rparr>) = structureOf el"
  "structureOf (el\<lparr>IsVisible := v\<rparr>) = structureOf el"
  by (simp_all add: structureOf_def)

lemma ownFieldsOf_updates [simp]:
  "ownFieldsOf (el\<lparr>FgColor := c\<rparr>) = ownFieldsOf el"
  "ownFieldsOf (el\<lparr>ResolvedFontSize := x\<rparr>) = ownFieldsOf el"
  "ownFieldsOf (el\<lparr>TextAlignment := t\<rparr>) = ownFieldsOf el"
  by (simp_all add: ownFieldsOf_def structureOf_def)

lemma structureOf_applyStyleProperty [simp]:
  "structureOf (applyStyleProperty K doc el prop) = structureOf el"
  by (simp add: applyStyleProperty_def split: option.splits)

lemma structureOf_applyDirectProperty [simp]:
  "structureOf (applyDirectProperty K doc el prop) = structureOf el"
  by (simp add: applyDirectProperty_def split: option.splits prod.splits)

lemma structureOf_style [simp]:
  "structureOf (applyStylePropertiesToElement K doc props el) = structureOf el"
  unfolding applyStylePropertiesToElement_def by (induction props arbitrary: el) simp_all

lemma structureOf_direct [simp]:
  "structureOf (applyDirectPropertiesToElement K doc props el) = structureOf el"
  unfolding applyDirectPropertiesToElement_def by (induction props arbitrary: el) simp_all

lemma structureOf_defaults [simp]: "structureOf (applyContextualDefaults cfg el) = structureOf el"
  by (simp add: applyContextualDefaults_def Let_def)

lemma structureOf_content [simp]: "structureOf (resolveElementTextAndImage K doc el style) = structureOf el"
  by (simp add: resolveElementTextAndImage_def Let_def split: option.splits prod.splits)

lemma structureOf_reapply [simp]: "structureOf (reapplyOwnVisuals K doc cfg el) = structureOf el"
proof -
  have "structureOf (el\<lparr>BgColor := Blank, FgColor := Blank, BorderColor := Blank,
                   BorderWidths := (0, 0, 0, 0), Padding := (0, 0, 0, 0),
                   TextAlignment := UnsetTextAlignmentSentinel, ResolvedFontSize := 0\<rparr>) = structureOf el"
    by simp
  then show ?thesis by (simp add: reapplyOwnVisuals_def Let_def split: option.splits)
qed

lemma ownFieldsOf_inheritInto [simp]:
  "ownFieldsOf (inheritInto K cfg el fg fs ta) = ownFieldsOf el"
  by (simp add: inheritInto_def Let_def)

lemma ownFieldsOf_self [simp]:
  "ownFieldsOf (applyInheritedToSelf K cfg el fg fs ta) = ownFieldsOf el"
  by (simp add: applyInheritedToSelf_def Let_def)

lemma structureOf_ownFieldsOf: "ownFieldsOf a = ownFieldsOf b \<Longrightarrow> structureOf a = structureOf b"
  by (simp add: ownFieldsOf_def)

lemma inheritance_frame:
  "applyInheritanceRecursive n K cfg st el fg fs ta = Some st' \<Longrightarrow>
     map (map ownFieldsOf) (arrays st') = map (map ownFieldsOf) (arrays st)
     \<and> elements st' = elements st \<and> roots st' = roots st \<and> logs st' = logs st"
  "applyInheritanceToChildren n K cfg st cs fg fs ta = Some st' \<Longrightarrow>
     map (map ownFieldsOf) (arrays st') = map (map ownFieldsOf) (arrays st)
     \<and> elements st' = elements st \<and> roots st' = roots st \<and> logs st' = logs st"
proof (induction n K cfg st el fg fs ta and n K cfg st cs fg fs ta arbitrary: st' and st'
       rule: applyInheritanceRecursive_applyInheritanceToChildren.induct)
  case (1 K cfg st el fg fs ta)
  then show ?case by simp
next
  case (2 n K cfg st el fg fs ta)
  define e where "e = inheritInto K cfg (deref st el) fg fs ta"
  have s: "map (map ownFieldsOf) (arrays (store st el e)) = map (map ownFieldsOf) (arrays st)"
    by (rule store_same_image) (simp add: e_def)
  have r: "applyInheritanceToChildren n K cfg (store st el e) (Children e)
           (fgColorForChildren e fg) (ResolvedFontSize e) (TextAlignment e) = Some st'"
    using "2.prems" by (simp add: Let_def e_def)
  show ?case using "2.IH" [OF e_def r] s by (simp add: store_def)
next
  case (3 n K cfg st fg fs ta)
  then show ?case by simp
next
  case (4 n K cfg st child rest fg fs ta)
  from "4.prems" obtain st1 where
    a: "applyInheritanceRecursive n K cfg st child fg fs ta = Some st1" and
    b: "applyInheritanceToChildren n K cfg st1 rest fg fs ta = Some st'"
    by (auto split: option.splits)
  show ?case using "4.IH"(1) [OF a] "4.IH"(2) [OF a b] by simp
qed


lemma descendants_mono_state:
  assumes "\<And>q. Children (deref st' q) = Children (deref st q)" "c \<in> descendants st' el"
  shows "c \<in> descendants st el"
  using assms(2)
proof (induction rule: descendants.induct)
  case (child c)
  then show ?case using assms(1) by (auto intro: descendants.child)
next
  case (step p c)
  then show ?case using assms(1) by (auto intro: descendants.step)
qed

lemma descendants_trans:
  assumes "c \<in> descendants st p" "p \<in> descendants st el"
  shows "c \<in> descendants st el"
  using assms
proof (induction rule: descendants.induct)
  case (child c)
  then show ?case by (auto intro: descendants.step)
next
  case (step q c)
  then show ?case by (auto intro: descendants.step)
qed

lemma Children_of_image:
  assumes "map (map ownFieldsOf) (arrays st') = map (map ownFieldsOf) (arrays st)"
  shows "Children (deref st' q) = Children (deref st q)"
proof -
  have "ownFieldsOf (deref st' q) = ownFieldsOf (deref st q)" using assms by (rule same_image_deref)
  then show ?thesis by (simp add: ownFieldsOf_def structureOf_def)
qed

lemma Children_inheritInto [simp]: "Children (inheritInto K cfg el fg fs ta) = Children el"
  using ownFieldsOf_inheritInto [of K cfg el fg fs ta] by (simp add: ownFieldsOf_def structureOf_def)

lemma inheritance_outside:
  "applyInheritanceRecursive n K cfg st el fg fs ta = Some st' \<Longrightarrow>
     p \<noteq> el \<Longrightarrow> p \<notin> descendants st el \<Longrightarrow> deref st' p = deref st p"
  "applyInheritanceToChildren n K cfg st cs fg fs ta = Some st' \<Longrightarrow>
     \<forall>c\<in>set cs. p \<noteq> c \<and> p \<notin> descendants st c \<Longrightarrow> deref st' p = deref st p"
proof (induction n K cfg st el fg fs ta and n K cfg st cs fg fs ta arbitrary: st' and st'
       rule: applyInheritanceRecursive_applyInheritanceToChildren.induct)
  case (1 K cfg st el fg fs ta)
  then show ?case by simp
next
  case (2 n K cfg st el fg fs ta)
  define e where "e = inheritInto K cfg (deref st el) fg fs ta"
  have r: "applyInheritanceToChildren n K cfg (store st el e) (Children e)
           (fgColorForChildren e fg) (ResolvedFontSize e) (TextAlignment e) = Some st'"
    using "2.prems"(1) by (simp add: Let_def e_def)
  have ch: "Children (deref (store st el e) q) = Children (deref st q)" for q
    by (simp add: deref_store e_def)
  have h: "\<forall>c\<in>set (Children e). p \<noteq> c \<and> p \<notin> descendants (store st el e) c"
  proof
    fix c assume "c \<in> set (Children e)"
    then have c: "c \<in> descendants st el" by (simp add: e_def descendants.child)
    have "p \<notin> descendants (store st el e) c"
    proof
      assume "p \<in> descendants (store st el e) c"
      then have "p \<in> descendants st c" by (rule descendants_mono_state [OF ch])
      then have "p \<in> descendants st el" using c by (rule descendants_trans)
      then show False using "2.prems"(3) by simp
    qed
    moreover have "p \<noteq> c" using c "2.prems"(3) by blast
    ultimately show "p \<noteq> c \<and> p \<notin> descendants (store st el e) c" by simp
  qed
  have "deref st' p = deref (store st el e) p" by (rule "2.IH" [OF e_def r h])
  then show ?case using "2.prems"(2) by (simp add: deref_store)
next
  case (3 n K cfg st fg fs ta)
  then show ?case by simp
next
  case (4 n K cfg st child rest fg fs ta)
  from "4.prems"(1) obtain st1 where
    a: "applyInheritanceRecursive n K cfg st child fg fs ta = Some st1" and
    b: "applyInheritanceToChildren n K cfg st1 rest fg fs ta = Some st'"
    by (auto split: option.splits)
  have p1: "p \<noteq> child" "p \<notin> descendants st child" using "4.prems"(2) by simp_all
  have d1: "deref st1 p = deref st p" by (rule "4.IH"(1) [OF a p1])
  have ch: "Children (deref st1 q) = Children (deref st q)" for q
    using inheritance_frame(1) [OF a] by (intro Children_of_image) simp
  have h: "\<forall>c\<in>set rest. p \<noteq> c \<and> p \<notin> descendants st1 c"
  proof
    fix c assume c: "c \<in> set rest"
    have "p \<notin> descendants st1 c"
    proof
      assume "p \<in> descendants st1 c"
      then have "p \<in> descendants st c" by (rule descendants_mono_state [OF ch])
      then show False using "4.prems"(2) c by simp
    qed
    then show "p \<noteq> c \<and> p \<notin> descendants st1 c" using "4.prems"(2) c by simp
  qed
  have "deref st' p = deref st1 p" by (rule "4.IH"(2) [OF a b h])
  then show ?case using d1 by simp
qed


lemma deref_logMsg [simp]: "deref (logMsg m st) p = deref st p"
  by (simp add: deref_def logMsg_def validPtr_def)

lemma arrays_logMsg [simp]: "arrays (logMsg m st) = arrays st"
  and elements_logMsg [simp]: "elements (logMsg m st) = elements st"
  and roots_logMsg [simp]: "roots (logMsg m st) = roots st"
  by (simp_all add: logMsg_def)

lemma elements_store [simp]: "elements (store st p e) = elements st"
  and roots_store [simp]: "roots (store st p e) = roots st"
  by (simp_all add: store_def)

lemma ReResolve_decompose:
  assumes "reResolveSteps n K doc cfg st el = Some st'"
  obtains st2 fg fs ta where
    "st2 = store st el (reapplyOwnVisuals K doc cfg (deref st el))
     \<or> st2 = logMsg WarnParentTextAlignmentUnset (store st el (reapplyOwnVisuals K doc cfg (deref st el)))"
    "applyInheritanceToChildren n K cfg
       (store st2 el (applyInheritedToSelf K cfg (deref st2 el) fg fs ta))
       (Children (applyInheritedToSelf K cfg (deref st2 el) fg fs ta))
       (if colA (FgColor (applyInheritedToSelf K cfg (deref st2 el) fg fs ta)) = 0 then fg
        else FgColor (applyInheritedToSelf K cfg (deref st2 el) fg fs ta))
       (if ResolvedFontSize (applyInheritedToSelf K cfg (deref st2 el) fg fs ta) = 0 then fs
        else ResolvedFontSize (applyInheritedToSelf K cfg (deref st2 el) fg fs ta))
       (TextAlignment (applyInheritedToSelf K cfg (deref st2 el) fg fs ta)) = Some st'"
  using assms unfolding reResolveSteps_def Let_def
  by (auto split: option.splits if_splits)


lemma Children_structureOf: "structureOf a = structureOf b \<Longrightarrow> Children a = Children b"
  by (simp add: structureOf_def)

lemma structureOf_self [simp]: "structureOf (applyInheritedToSelf K cfg el fg fs ta) = structureOf el"
  by (rule structureOf_ownFieldsOf) simp

lemma reResolveSteps_frame:
  assumes "reResolveSteps n K doc cfg st el = Some st'"
  shows "map (map structureOf) (arrays st') = map (map structureOf) (arrays st)
       \<and> elements st' = elements st \<and> roots st' = roots st
       \<and> (\<forall>p. p \<noteq> el \<longrightarrow> ownFieldsOf (deref st' p) = ownFieldsOf (deref st p))
       \<and> (\<forall>p. p \<noteq> el \<and> p \<notin> descendants st el \<longrightarrow> deref st' p = deref st p)"
proof -
  define e where "e = reapplyOwnVisuals K doc cfg (deref st el)"
  define st1 where "st1 = store st el e"
  from assms obtain st2 fg fs ta where
    st2: "st2 = st1 \<or> st2 = logMsg WarnParentTextAlignmentUnset st1" and
    run: "applyInheritanceToChildren n K cfg
       (store st2 el (applyInheritedToSelf K cfg (deref st2 el) fg fs ta))
       (Children (applyInheritedToSelf K cfg (deref st2 el) fg fs ta))
       (if colA (FgColor (applyInheritedToSelf K cfg (deref st2 el) fg fs ta)) = 0 then fg
        else FgColor (applyInheritedToSelf K cfg (deref st2 el) fg fs ta))
       (if ResolvedFontSize (applyInheritedToSelf K cfg (deref st2 el) fg fs ta) = 0 then fs
        else ResolvedFontSize (applyInheritedToSelf K cfg (deref st2 el) fg fs ta))
       (TextAlignment (applyInheritedToSelf K cfg (deref st2 el) fg fs ta)) = Some st'"
    unfolding st1_def e_def by (rule ReResolve_decompose)
  define e' where "e' = applyInheritedToSelf K cfg (deref st2 el) fg fs ta"
  define st3 where "st3 = store st2 el e'"
  have a2: "arrays st2 = arrays st1" and l2: "elements st2 = elements st1" "roots st2 = roots st1"
    and d2: "deref st2 q = deref st1 q" for q
    using st2 by auto
  have v1: "map (map structureOf) (arrays st1) = map (map structureOf) (arrays st)"
    unfolding st1_def by (rule store_same_image) (simp add: e_def)
  have v3: "map (map structureOf) (arrays st3) = map (map structureOf) (arrays st2)"
    unfolding st3_def by (rule store_same_image) (simp add: e'_def)
  have f: "map (map ownFieldsOf) (arrays st') = map (map ownFieldsOf) (arrays st3)"
    "elements st' = elements st3" "roots st' = roots st3"
    using inheritance_frame(2) [OF run] by (simp_all add: st3_def e'_def)
  have "map (map structureOf) (arrays st') = map (map structureOf) (arrays st3)"
  proof -
    have "map (map fst) (map (map ownFieldsOf) (arrays st'))
          = map (map fst) (map (map ownFieldsOf) (arrays st3))" by (simp only: f(1))
    then have "map (map (\<lambda>x. fst (ownFieldsOf x))) (arrays st')
          = map (map (\<lambda>x. fst (ownFieldsOf x))) (arrays st3)" by (simp add: comp_def)
    moreover have "(\<lambda>x. fst (ownFieldsOf x)) = structureOf" by (auto simp: ownFieldsOf_def)
    ultimately show ?thesis by simp
  qed
  then have c1: "map (map structureOf) (arrays st') = map (map structureOf) (arrays st)"
    using v3 v1 a2 by simp
  have c2: "elements st' = elements st" "roots st' = roots st"
    using f(2,3) l2 by (simp_all add: st3_def st1_def)
  have other: "deref st3 p = deref st p" if "p \<noteq> el" for p
    using that by (simp add: st3_def deref_store d2 st1_def)
  have c3: "ownFieldsOf (deref st' p) = ownFieldsOf (deref st p)" if "p \<noteq> el" for p
    using same_image_deref [OF f(1), of p] other [OF that] by simp
  have ch3: "Children (deref st3 q) = Children (deref st q)" for q
  proof -
    have "structureOf (deref st3 q) = structureOf (deref st2 q)" using v3 by (rule same_image_deref)
    also have "\<dots> = structureOf (deref st q)" unfolding d2 using v1 by (rule same_image_deref)
    finally show ?thesis by (rule Children_structureOf)
  qed
  have c4: "deref st' p = deref st p" if p: "p \<noteq> el" "p \<notin> descendants st el" for p
  proof -
    have ce: "Children e' = Children (deref st el)"
    proof -
      have "structureOf e' = structureOf (deref st2 el)" by (simp add: e'_def)
      also have "\<dots> = structureOf (deref st el)" unfolding d2 using v1 by (rule same_image_deref)
      finally show ?thesis by (rule Children_structureOf)
    qed
    have h: "\<forall>c\<in>set (Children e'). p \<noteq> c \<and> p \<notin> descendants st3 c"
    proof
      fix c assume "c \<in> set (Children e')"
      then have c: "c \<in> descendants st el" by (simp add: ce descendants.child)
      have "p \<notin> descendants st3 c"
      proof
        assume "p \<in> descendants st3 c"
        then have "p \<in> descendants st c" by (rule descendants_mono_state [OF ch3])
        then have "p \<in> descendants st el" using c by (rule descendants_trans)
        then show False using p(2) by simp
      qed
      moreover have "p \<noteq> c" using c p(2) by blast
      ultimately show "p \<noteq> c \<and> p \<notin> descendants st3 c" by simp
    qed
    have "deref st' p = deref st3 p"
      using run h unfolding st3_def e'_def by (rule inheritance_outside(2))
    then show ?thesis using other [OF p(1)] by simp
  qed
  show ?thesis using c1 c2 c3 c4 by blast
qed

lemma descendants_leaf: "c \<in> descendants st el \<Longrightarrow> Children (deref st el) \<noteq> []"
  by (induction rule: descendants.induct) auto

lemma descendants_logMsg [simp]: "descendants (logMsg m st) el = descendants st el"
proof (intro set_eqI iffI)
  fix c
  assume "c \<in> descendants (logMsg m st) el"
  then show "c \<in> descendants st el" by (rule descendants_mono_state [rotated]) simp
next
  fix c
  assume "c \<in> descendants st el"
  then show "c \<in> descendants (logMsg m st) el" by (rule descendants_mono_state [rotated]) simp
qed

text \<open>
  Claim C9, as amended. A call of \<open>ReResolveElementVisuals\<close> that returns leaves the
  structure of every element of every backing array as it was (header, index, \<open>Parent\<close>,
  \<open>Children\<close>, geometry, interactivity), and with it the number, lengths and order of the
  arrays, the slice \<open>r.elements\<close> and the roots; no element is added. What is not
  structure is the visual state: the colours, border widths, padding, font size, text
  alignment, text, resource index and the visibility flag, and the element re-resolved
  changes in these only. Any other element changes at most in its inheritance-derived
  fields (foreground colour, font size, text alignment), and one that is not among the
  descendants of the element re-resolved does not change at all; with a \<open>nil\<close> element
  or document no element changes.
\<close>

theorem ReResolveElementVisuals_frame:
  assumes "ReResolveElementVisuals n K docRef cfg st elem = Some st'"
  shows "map (map structureOf) (arrays st') = map (map structureOf) (arrays st)
       \<and> elements st' = elements st \<and> roots st' = roots st
       \<and> (\<forall>p. Some p \<noteq> elem \<longrightarrow> ownFieldsOf (deref st' p) = ownFieldsOf (deref st p))
       \<and> (\<forall>p el. elem = Some el \<and> p \<noteq> el \<and> p \<notin> descendants st el
                 \<longrightarrow> deref st' p = deref st p)
       \<and> (elem = None \<or> docRef = None \<longrightarrow> arrays st' = arrays st)"
proof (cases "elem = None \<or> docRef = None")
  case True
  then have "st' = logMsg WarnElementOrDocumentNil st"
    using assms by (auto simp: ReResolveElementVisuals_def split: option.splits)
  then show ?thesis by simp
next
  case False
  then obtain el doc where ed: "elem = Some el" "docRef = Some doc" by auto
  define st0 where
    "st0 = (if findStyle doc (StyleID (Header (deref st el))) = None
               \<and> StyleID (Header (deref st el)) \<noteq> 0
            then logMsg (WarnReResolveStyleNotFound (StyleID (Header (deref st el)))) st
            else st)"
  have run: "reResolveSteps n K doc cfg st0 el = Some st'"
    using assms by (simp add: ReResolveElementVisuals_def ed st0_def)
  have s0: "arrays st0 = arrays st" "elements st0 = elements st" "roots st0 = roots st"
    "descendants st0 el = descendants st el" "\<And>p. deref st0 p = deref st p"
    by (simp_all add: st0_def)
  show ?thesis using reResolveSteps_frame [OF run] ed by (simp add: s0)
qed

section \<open>Slotting the usage children\<close>

lemma deref_invalid: "\<not> validPtr st p \<Longrightarrow> deref st p = zeroElement"
  by (simp add: deref_def)

lemma Children_invalid: "\<not> validPtr st p \<Longrightarrow> Children (deref st p) = []"
  by (simp add: deref_def zeroElement_def)

lemma child_valid: "c \<in> set (Children (deref st p)) \<Longrightarrow> validPtr st p"
  by (cases "validPtr st p") (simp_all add: Children_invalid)

lemma descendants_parent_valid:
  "c \<in> descendants st el \<Longrightarrow> \<exists>p. (p = el \<or> p \<in> descendants st el) \<and> validPtr st p \<and> c \<in> set (Children (deref st p))"
proof (induction rule: descendants.induct)
  case (child c)
  then have "validPtr st el" by (rule child_valid)
  with child show ?case by blast
next
  case (step p c)
  then have "validPtr st p" using child_valid by blast
  with step show ?case by blast
qed

text \<open>What the search finds is an allocated slot node among the queued nodes or below them.\<close>

lemma slotSearch_Some:
  "slotSearch doc st queue vis = Some s \<Longrightarrow>
     validPtr st s \<and> isSlot doc (deref st s) \<and> s \<notin> set vis
     \<and> (\<exists>q\<in>set queue. s = q \<or> s \<in> descendants st q)"
proof (induction doc st queue vis rule: slotSearch.induct)
  case (1 doc st queue vis)
  show ?case
  proof (cases queue)
    case Nil
    with "1.prems" show ?thesis by simp
  next
    case (Cons c rest)
    show ?thesis
    proof (cases "c \<in> set vis \<or> \<not> validPtr st c")
      case True
      then have "slotSearch doc st rest vis = Some s" using "1.prems" Cons by simp
      then show ?thesis using "1.IH"(1) [OF Cons True] Cons by auto
    next
      case False
      show ?thesis
      proof (cases "isSlot doc (deref st c)")
        case True
        then have "s = c" using "1.prems" Cons False by simp
        then show ?thesis using True False Cons by simp
      next
        case ns: False
        let ?kids = "filter (\<lambda>k. k \<notin> set (c # vis)) (Children (deref st c))"
        have "slotSearch doc st (rest @ ?kids) (c # vis) = Some s"
          using "1.prems" Cons False ns by simp
        then have r: "validPtr st s" "isSlot doc (deref st s)" "s \<notin> set (c # vis)"
          "\<exists>q\<in>set (rest @ ?kids). s = q \<or> s \<in> descendants st q"
          using "1.IH"(2) [OF Cons False ns] by simp_all
        from r(4) obtain q where q: "q \<in> set rest \<or> q \<in> set ?kids" "s = q \<or> s \<in> descendants st q"
          by auto
        have "\<exists>q\<in>set queue. s = q \<or> s \<in> descendants st q"
        proof (cases "q \<in> set rest")
          case True
          then show ?thesis using q(2) Cons by auto
        next
          case False
          then have k: "q \<in> set (Children (deref st c))" using q(1) by simp
          then have "q \<in> descendants st c" by (rule descendants.child)
          then have "s \<in> descendants st c" using q(2) descendants_trans by blast
          then show ?thesis using Cons by auto
        qed
        then show ?thesis using r by simp
      qed
    qed
  qed
qed

text \<open>
  When the search finds nothing, the visited and the queued allocated nodes lie in a set of
  non-slot nodes that is closed under allocated children.
\<close>

lemma slotSearch_None:
  assumes "slotSearch doc st queue vis = None"
    and "\<forall>v\<in>set vis. validPtr st v \<and> \<not> isSlot doc (deref st v)
           \<and> (\<forall>c\<in>set (Children (deref st v)). c \<in> set vis \<or> c \<in> set queue \<or> \<not> validPtr st c)"
  shows "\<exists>V. set vis \<subseteq> V \<and> {p \<in> set queue. validPtr st p} \<subseteq> V
           \<and> (\<forall>v\<in>V. validPtr st v \<and> \<not> isSlot doc (deref st v)
                 \<and> (\<forall>c\<in>set (Children (deref st v)). c \<in> V \<or> \<not> validPtr st c))"
  using assms
proof (induction doc st queue vis rule: slotSearch.induct)
  case (1 doc st queue vis)
  show ?case
  proof (cases queue)
    case Nil
    have "\<forall>v\<in>set vis. validPtr st v \<and> \<not> isSlot doc (deref st v)
                 \<and> (\<forall>c\<in>set (Children (deref st v)). c \<in> set vis \<or> \<not> validPtr st c)"
      using "1.prems"(2) Nil by simp
    then show ?thesis using Nil by (intro exI [of _ "set vis"]) simp
  next
    case (Cons c rest)
    show ?thesis
    proof (cases "c \<in> set vis \<or> \<not> validPtr st c")
      case True
      have a: "slotSearch doc st rest vis = None" using "1.prems"(1) Cons True by simp
      have b: "\<forall>v\<in>set vis. validPtr st v \<and> \<not> isSlot doc (deref st v)
           \<and> (\<forall>k\<in>set (Children (deref st v)). k \<in> set vis \<or> k \<in> set rest \<or> \<not> validPtr st k)"
        using "1.prems"(2) Cons True by auto
      obtain V where V: "set vis \<subseteq> V" "{p \<in> set rest. validPtr st p} \<subseteq> V"
        "\<forall>v\<in>V. validPtr st v \<and> \<not> isSlot doc (deref st v)
                 \<and> (\<forall>k\<in>set (Children (deref st v)). k \<in> V \<or> \<not> validPtr st k)"
        using "1.IH"(1) [OF Cons True a b] by blast
      have "{p \<in> set queue. validPtr st p} \<subseteq> V" using V(1,2) Cons True by auto
      then show ?thesis using V(1,3) by blast
    next
      case False
      then have ns: "\<not> isSlot doc (deref st c)" using "1.prems"(1) Cons by (auto split: if_splits)
      let ?kids = "filter (\<lambda>k. k \<notin> set (c # vis)) (Children (deref st c))"
      have a: "slotSearch doc st (rest @ ?kids) (c # vis) = None"
        using "1.prems"(1) Cons False ns by simp
      have b: "\<forall>v\<in>set (c # vis). validPtr st v \<and> \<not> isSlot doc (deref st v)
           \<and> (\<forall>k\<in>set (Children (deref st v)).
                 k \<in> set (c # vis) \<or> k \<in> set (rest @ ?kids) \<or> \<not> validPtr st k)"
        using "1.prems"(2) Cons False ns by auto
      obtain V where V: "set (c # vis) \<subseteq> V" "{p \<in> set (rest @ ?kids). validPtr st p} \<subseteq> V"
        "\<forall>v\<in>V. validPtr st v \<and> \<not> isSlot doc (deref st v)
                 \<and> (\<forall>k\<in>set (Children (deref st v)). k \<in> V \<or> \<not> validPtr st k)"
        using "1.IH"(2) [OF Cons False ns a b] by blast
      have "{p \<in> set queue. validPtr st p} \<subseteq> V" "set vis \<subseteq> V" using V(1,2) Cons by auto
      then show ?thesis using V(3) by blast
    qed
  qed
qed

lemma closed_descendants:
  assumes "\<forall>v\<in>V. validPtr st v \<and> (\<forall>c\<in>set (Children (deref st v)). c \<in> V \<or> \<not> validPtr st c)"
    and "r \<in> V" "p \<in> descendants st r" "validPtr st p"
  shows "p \<in> V"
proof -
  have "p \<in> descendants st r \<Longrightarrow> validPtr st p \<longrightarrow> p \<in> V"
  proof (induction rule: descendants.induct)
    case (child c)
    then show ?case using assms(1,2) by blast
  next
    case (step q c)
    then have "validPtr st q" using child_valid by blast
    then show ?case using step assms(1) by blast
  qed
  then show ?thesis using assms(3,4) by simp
qed

lemma slotSearch_complete:
  assumes "slotSearch doc st [r] [] = None" "validPtr st r"
    and "p = r \<or> p \<in> descendants st r" "validPtr st p"
  shows "\<not> isSlot doc (deref st p)"
proof -
  obtain V where V: "{q \<in> set [r]. validPtr st q} \<subseteq> V"
    "\<forall>v\<in>V. validPtr st v \<and> \<not> isSlot doc (deref st v)
                 \<and> (\<forall>c\<in>set (Children (deref st v)). c \<in> V \<or> \<not> validPtr st c)"
    using slotSearch_None [OF assms(1)] by auto
  have r: "r \<in> V" using V(1) assms(2) by auto
  have "p \<in> V"
  proof (cases "p = r")
    case True
    then show ?thesis using r by simp
  next
    case False
    then have "p \<in> descendants st r" using assms(3) by simp
    then show ?thesis using closed_descendants [of V st r p] V(2) r assms(4) by blast
  qed
  then show ?thesis using V(2) by blast
qed


lemma createTemplateElement_root:
  "createTemplateElement K doc cfg st P L = Some (Inr (st3, L', newEl, nested)) \<Longrightarrow>
     currentTemplateRootGlobalIndex L' \<noteq> None"
  unfolding createTemplateElement_def Let_def
  by (auto split: option.splits prod.splits if_splits)

lemma expandPass1_root:
  "expandComponent n K doc cfg st P compDef kry = r \<Longrightarrow> True"
  "expandPass1 n K doc cfg st P L = Some (None, st1, L1) \<Longrightarrow>
     templateReader L \<noteq> [] \<or> currentTemplateRootGlobalIndex L \<noteq> None \<Longrightarrow>
     currentTemplateRootGlobalIndex L1 \<noteq> None"
proof (induction n K doc cfg st P compDef kry and n K doc cfg st P L arbitrary: r and st1 L1
       rule: expandComponent_expandPass1.induct)
  case (4 n K doc cfg st P L)
  show ?case
  proof (cases "templateReader L = []")
    case True
    then show ?thesis using "4.prems" by simp
  next
    case False
    from "4.prems"(1) False obtain st3 L' newEl nested where
      c: "createTemplateElement K doc cfg st P L = Some (Inr (st3, L', newEl, nested))"
      by (auto split: option.splits sum.splits)
    have root: "currentTemplateRootGlobalIndex L' \<noteq> None" using c by (rule createTemplateElement_root)
    show ?thesis
    proof (cases "nested = []")
      case True
      then have nn: "\<not> nested \<noteq> []" by simp
      have "expandPass1 n K doc cfg st3 P L' = Some (None, st1, L1)"
        using "4.prems"(1) False c True by simp
      then show ?thesis using "4.IH"(4) [OF False c refl refl refl refl nn] root by simp
    next
      case ne: False
      show ?thesis
      proof (cases "findComponentDefinition doc nested")
        case None
        then have "expandPass1 n K doc cfg (logMsg WarnNestedCompDefNotFound st3) P L' = Some (None, st1, L1)"
          using "4.prems"(1) False c ne by simp
        then show ?thesis using "4.IH"(1) [OF False c refl refl refl refl ne None] root by simp
      next
        case (Some nestedCompDef)
        from "4.prems"(1) False c ne Some obtain st4 where
          e: "expandComponent n K doc cfg
                (store st3 newEl ((deref st3 newEl)\<lparr>IsExpandedAsNestedComponent := True\<rparr>))
                newEl nestedCompDef [] = Some (None, st4)" and
          p: "expandPass1 n K doc cfg st4 P L' = Some (None, st1, L1)"
          by (auto split: option.splits)
        show ?thesis using "4.IH"(3) [OF False c refl refl refl refl ne Some e refl refl p] root by simp
      qed
    qed
  qed
qed simp_all


lemma validPtr_logMsg [simp]: "validPtr (logMsg m st) p = validPtr st p"
  by (simp add: validPtr_def logMsg_def)

lemma logs_store [simp]: "logs (store st p e) = logs st"
  by (simp add: store_def)

lemma reparentAll_props:
  "validPtr (reparentAll st h cs) p = validPtr st p"
  "Children (deref (reparentAll st h cs) p) = Children (deref st p)"
  "Header (deref (reparentAll st h cs) p) = Header (deref st p)"
  "logs (reparentAll st h cs) = logs st"
  "elements (reparentAll st h cs) = elements st"
  by (induction st h cs rule: reparentAll.induct) (simp_all add: deref_store)

lemma reparentAll_other: "p \<notin> set cs \<Longrightarrow> deref (reparentAll st h cs) p = deref st p"
  by (induction st h cs rule: reparentAll.induct) (simp_all add: deref_store)

lemma reparentAll_Parent:
  "c \<in> set cs \<Longrightarrow> validPtr st c \<Longrightarrow> Parent (deref (reparentAll st h cs) c) = Some h"
proof (induction st h cs rule: reparentAll.induct)
  case (1 st h)
  then show ?case by simp
next
  case (2 st h k rest)
  define st1 where "st1 = store st k ((deref st k)\<lparr>Parent := Some h\<rparr>)"
  have v: "validPtr st1 c" using "2.prems"(2) by (simp add: st1_def)
  show ?case
  proof (cases "c \<in> set rest")
    case True
    then show ?thesis using "2.IH" v by (simp add: st1_def)
  next
    case False
    then have "c = k" using "2.prems"(1) by simp
    then have "deref (reparentAll st1 h rest) c = deref st1 c" using False by (simp add: reparentAll_other)
    then show ?thesis using \<open>c = k\<close> "2.prems"(2) by (simp add: st1_def deref_store)
  qed
qed

lemma appendChildren_host:
  "validPtr st host \<Longrightarrow> Children (deref (appendChildren st host cs) host) = Children (deref st host) @ cs"
  by (simp add: appendChildren_def reparentAll_props deref_store)

lemma appendChildren_Children_other:
  "p \<noteq> host \<Longrightarrow> Children (deref (appendChildren st host cs) p) = Children (deref st p)"
  by (simp add: appendChildren_def reparentAll_props deref_store)

lemma appendChildren_Parent:
  "c \<in> set cs \<Longrightarrow> validPtr st c \<Longrightarrow> Parent (deref (appendChildren st host cs) c) = Some host"
  by (simp add: appendChildren_def reparentAll_Parent)

lemma appendChildren_other:
  "p \<notin> set cs \<Longrightarrow> p \<noteq> host \<Longrightarrow> deref (appendChildren st host cs) p = deref st p"
  by (simp add: appendChildren_def reparentAll_other deref_store)

lemma appendChildren_more:
  "validPtr (appendChildren st host cs) p = validPtr st p"
  "logs (appendChildren st host cs) = logs st"
  "Header (deref (appendChildren st host cs) p) = Header (deref st p)"
  by (simp_all add: appendChildren_def reparentAll_props deref_store)

lemma logs_logMsg [simp]: "logs (logMsg m st) = logs st @ [m]"
  by (simp add: logMsg_def)


lemma finishExpansion_linked:
  "finishExpansion K doc st1 P L kry = slotUsageChildren K doc (linkedExpansion st1 P L) P kry"
  by (simp add: finishExpansion_def linkedExpansion_def Let_def)

lemma expandComponent_completes:
  assumes "expandPass1 n K doc cfg st P (initialPass1 compDef) = Some (None, st1, L)"
    and "RootElementTemplateData compDef \<noteq> []"
  shows "expandComponent (Suc n) K doc cfg st P compDef kry
         = Some (None, slotUsageChildren K doc (linkedExpansion st1 P L) P kry)"
  using assms by (simp add: finishExpansion_linked)

lemma linkedExpansion_children:
  assumes "expandPass1 n K doc cfg st P (initialPass1 compDef) = Some (None, st1, L)"
    and "RootElementTemplateData compDef \<noteq> []"
    and "validPtr (linkedExpansion st1 P L) P"
  shows "\<exists>r. currentTemplateRootGlobalIndex L = Some r
           \<and> Children (deref (linkedExpansion st1 P L) P)
               = [elemPtr (expandPass2 st1 (localTemplateOffsetToGlobalIndex L) (localTemplateChildInfos L)) r]"
proof -
  have "currentTemplateRootGlobalIndex L \<noteq> None"
    using assms(1) by (rule expandPass1_root(2)) (simp add: initialPass1_def assms(2))
  then obtain r where r: "currentTemplateRootGlobalIndex L = Some r" by auto
  let ?st2 = "expandPass2 st1 (localTemplateOffsetToGlobalIndex L) (localTemplateChildInfos L)"
  have l: "linkedExpansion st1 P L = store ?st2 P ((deref ?st2 P)\<lparr>Children := [elemPtr ?st2 r]\<rparr>)"
    by (simp add: linkedExpansion_def finalizeInstance_def r)
  have "validPtr ?st2 P" using assms(3) unfolding l by simp
  then have "Children (deref (linkedExpansion st1 P L) P) = [elemPtr ?st2 r]"
    unfolding l by (simp add: deref_store)
  then show ?thesis using r by simp
qed

lemma slotUsageChildren_found:
  assumes "kry \<noteq> []" "Children (deref st P) = [tplRoot]"
    and "slotSearch doc st [tplRoot] [] = Some slot"
  shows "slotUsageChildren K doc st P kry = appendChildren st slot kry"
  using assms by (simp add: slotUsageChildren_def)

lemma slotUsageChildren_missing:
  assumes "kry \<noteq> []" "Children (deref st P) = [tplRoot]"
    and "slotSearch doc st [tplRoot] [] = None"
  shows "slotUsageChildren K doc st P kry =
           (if Type (Header (deref st tplRoot)) = ElemTypeContainer K
            then appendChildren (logMsg WarnNoSlotFound st) tplRoot kry
            else logMsg ErrorRootNotContainer (logMsg WarnNoSlotFound st))"
  using assms by (simp add: slotUsageChildren_def Let_def)


lemma descendants_root_valid: "c \<in> descendants st el \<Longrightarrow> validPtr st el"
  by (induction rule: descendants.induct) (simp_all add: child_valid)

text \<open>
  Claim C3. Take an expansion of the instance \<open>P\<close> whose pass 1 has succeeded on a
  non-empty template, with usage children stashed for \<open>P\<close>, all of them and \<open>P\<close>
  allocated. The expansion returns without an error and \<open>P\<close> has the template root as
  its only child. If the linked template has a slot-named node below its root, and neither
  the root nor \<open>P\<close> carries the slot name, then the usage children are appended, in
  order, to the children of a slot-named node below the root, every usage child has that
  node as its parent, the children of the template root are those the template gave it,
  and the children of \<open>P\<close> are still exactly the template root.
\<close>

theorem expandComponent_slot_insertion:
  assumes pass1: "expandPass1 n K doc cfg st P (initialPass1 compDef) = Some (None, st1, L)"
    and tpl: "RootElementTemplateData compDef \<noteq> []"
    and kry: "kry \<noteq> []"
    and st3: "st3 = linkedExpansion st1 P L"
    and vP: "validPtr st3 P"
    and vk: "\<forall>c\<in>set kry. validPtr st3 c"
  shows "\<exists>tplRoot st'.
       expandComponent (Suc n) K doc cfg st P compDef kry = Some (None, st')
     \<and> Children (deref st3 P) = [tplRoot]
     \<and> ((\<exists>p. p \<in> descendants st3 tplRoot \<and> validPtr st3 p \<and> isSlot doc (deref st3 p))
          \<and> \<not> isSlot doc (deref st3 tplRoot) \<and> \<not> isSlot doc (deref st3 P) \<longrightarrow>
        (\<exists>slot. slot \<in> descendants st3 tplRoot \<and> isSlot doc (deref st3 slot)
           \<and> Children (deref st' slot) = Children (deref st3 slot) @ kry
           \<and> (\<forall>c\<in>set kry. Parent (deref st' c) = Some slot)
           \<and> Children (deref st' tplRoot) = Children (deref st3 tplRoot)
           \<and> Children (deref st' P) = [tplRoot]))"
proof -
  obtain r where r: "currentTemplateRootGlobalIndex L = Some r"
    and ch: "Children (deref st3 P)
               = [elemPtr (expandPass2 st1 (localTemplateOffsetToGlobalIndex L) (localTemplateChildInfos L)) r]"
    using linkedExpansion_children [OF pass1 tpl] vP unfolding st3 by blast
  define tplRoot where
    "tplRoot = elemPtr (expandPass2 st1 (localTemplateOffsetToGlobalIndex L) (localTemplateChildInfos L)) r"
  define st' where "st' = slotUsageChildren K doc st3 P kry"
  have run: "expandComponent (Suc n) K doc cfg st P compDef kry = Some (None, st')"
    using expandComponent_completes [OF pass1 tpl] by (simp add: st'_def st3)
  have chP: "Children (deref st3 P) = [tplRoot]" using ch by (simp add: tplRoot_def)
  have main: "\<exists>slot. slot \<in> descendants st3 tplRoot \<and> isSlot doc (deref st3 slot)
           \<and> Children (deref st' slot) = Children (deref st3 slot) @ kry
           \<and> (\<forall>c\<in>set kry. Parent (deref st' c) = Some slot)
           \<and> Children (deref st' tplRoot) = Children (deref st3 tplRoot)
           \<and> Children (deref st' P) = [tplRoot]"
    if ex: "\<exists>p. p \<in> descendants st3 tplRoot \<and> validPtr st3 p \<and> isSlot doc (deref st3 p)"
      and nr: "\<not> isSlot doc (deref st3 tplRoot)" and nP: "\<not> isSlot doc (deref st3 P)"
  proof -
    from ex obtain p where p: "p \<in> descendants st3 tplRoot" "validPtr st3 p" "isSlot doc (deref st3 p)"
      by blast
    have vr: "validPtr st3 tplRoot" using p(1) by (rule descendants_root_valid)
    have "slotSearch doc st3 [tplRoot] [] \<noteq> None"
    proof
      assume "slotSearch doc st3 [tplRoot] [] = None"
      then have "\<not> isSlot doc (deref st3 p)"
        using vr p(1,2) by (intro slotSearch_complete [of doc st3 tplRoot p]) simp_all
      then show False using p(3) by simp
    qed
    then obtain slot where s: "slotSearch doc st3 [tplRoot] [] = Some slot" by auto
    have sv: "validPtr st3 slot" and ss: "isSlot doc (deref st3 slot)"
      and sr: "slot = tplRoot \<or> slot \<in> descendants st3 tplRoot"
      using slotSearch_Some [OF s] by auto
    have ne: "slot \<noteq> tplRoot" "slot \<noteq> P" using ss nr nP by auto
    have st'': "st' = appendChildren st3 slot kry"
      unfolding st'_def using kry chP s by (rule slotUsageChildren_found)
    have "slot \<in> descendants st3 tplRoot" using sr ne by simp
    moreover have "Children (deref st' slot) = Children (deref st3 slot) @ kry"
      unfolding st'' using sv by (rule appendChildren_host)
    moreover have "\<forall>c\<in>set kry. Parent (deref st' c) = Some slot"
      unfolding st'' using vk by (simp add: appendChildren_Parent)
    moreover have "Children (deref st' tplRoot) = Children (deref st3 tplRoot)"
      unfolding st'' using ne by (simp add: appendChildren_Children_other)
    moreover have "Children (deref st' P) = [tplRoot]"
      unfolding st'' using ne chP by (simp add: appendChildren_Children_other)
    ultimately show ?thesis using ss by blast
  qed
  show ?thesis using run chP main by blast
qed

text \<open>
  Claim C4. In the same setting, if no allocated node of the linked template, from its root
  downwards, carries the slot name, the expansion still returns without an error and
  records the warning. The usage children are appended to the children of the template
  root, and get it as their parent, if the root is a container; if it is not, no element
  changes at all, so the usage children stay without the parent they did not have, and
  the warning is followed by one more message and nothing else.
\<close>

theorem expandComponent_missing_slot:
  assumes pass1: "expandPass1 n K doc cfg st P (initialPass1 compDef) = Some (None, st1, L)"
    and tpl: "RootElementTemplateData compDef \<noteq> []"
    and kry: "kry \<noteq> []"
    and st3: "st3 = linkedExpansion st1 P L"
    and vP: "validPtr st3 P"
    and vk: "\<forall>c\<in>set kry. validPtr st3 c"
  shows "\<exists>tplRoot st'.
       expandComponent (Suc n) K doc cfg st P compDef kry = Some (None, st')
     \<and> Children (deref st3 P) = [tplRoot]
     \<and> (validPtr st3 tplRoot
          \<and> (\<forall>p. (p = tplRoot \<or> p \<in> descendants st3 tplRoot) \<and> validPtr st3 p
                 \<longrightarrow> \<not> isSlot doc (deref st3 p)) \<longrightarrow>
          WarnNoSlotFound \<in> set (logs st')
        \<and> (Type (Header (deref st3 tplRoot)) = ElemTypeContainer K \<longrightarrow>
             Children (deref st' tplRoot) = Children (deref st3 tplRoot) @ kry
             \<and> (\<forall>c\<in>set kry. Parent (deref st' c) = Some tplRoot))
        \<and> (Type (Header (deref st3 tplRoot)) \<noteq> ElemTypeContainer K \<longrightarrow>
             arrays st' = arrays st3
             \<and> logs st' = logs st3 @ [WarnNoSlotFound, ErrorRootNotContainer]))"
proof -
  obtain r where r: "currentTemplateRootGlobalIndex L = Some r"
    and ch: "Children (deref st3 P)
               = [elemPtr (expandPass2 st1 (localTemplateOffsetToGlobalIndex L) (localTemplateChildInfos L)) r]"
    using linkedExpansion_children [OF pass1 tpl] vP unfolding st3 by blast
  define tplRoot where
    "tplRoot = elemPtr (expandPass2 st1 (localTemplateOffsetToGlobalIndex L) (localTemplateChildInfos L)) r"
  define st' where "st' = slotUsageChildren K doc st3 P kry"
  have run: "expandComponent (Suc n) K doc cfg st P compDef kry = Some (None, st')"
    using expandComponent_completes [OF pass1 tpl] by (simp add: st'_def st3)
  have chP: "Children (deref st3 P) = [tplRoot]" using ch by (simp add: tplRoot_def)
  have main: "WarnNoSlotFound \<in> set (logs st')
        \<and> (Type (Header (deref st3 tplRoot)) = ElemTypeContainer K \<longrightarrow>
             Children (deref st' tplRoot) = Children (deref st3 tplRoot) @ kry
             \<and> (\<forall>c\<in>set kry. Parent (deref st' c) = Some tplRoot))
        \<and> (Type (Header (deref st3 tplRoot)) \<noteq> ElemTypeContainer K \<longrightarrow>
             arrays st' = arrays st3
             \<and> logs st' = logs st3 @ [WarnNoSlotFound, ErrorRootNotContainer])"
    if vr: "validPtr st3 tplRoot"
      and none: "\<forall>p. (p = tplRoot \<or> p \<in> descendants st3 tplRoot) \<and> validPtr st3 p
                 \<longrightarrow> \<not> isSlot doc (deref st3 p)"
  proof -
    have s: "slotSearch doc st3 [tplRoot] [] = None"
    proof (cases "slotSearch doc st3 [tplRoot] []")
      case (Some slot)
      then have "validPtr st3 slot" "isSlot doc (deref st3 slot)"
        "slot = tplRoot \<or> slot \<in> descendants st3 tplRoot"
        using slotSearch_Some [OF Some] by auto
      then show ?thesis using none by blast
    qed simp
    have e: "st' = (if Type (Header (deref st3 tplRoot)) = ElemTypeContainer K
            then appendChildren (logMsg WarnNoSlotFound st3) tplRoot kry
            else logMsg ErrorRootNotContainer (logMsg WarnNoSlotFound st3))"
      unfolding st'_def using kry chP s by (rule slotUsageChildren_missing)
    show ?thesis
    proof (cases "Type (Header (deref st3 tplRoot)) = ElemTypeContainer K")
      case True
      then have e': "st' = appendChildren (logMsg WarnNoSlotFound st3) tplRoot kry" using e by simp
      have "Children (deref st' tplRoot) = Children (deref st3 tplRoot) @ kry"
        unfolding e' using vr by (simp add: appendChildren_host)
      moreover have "\<forall>c\<in>set kry. Parent (deref st' c) = Some tplRoot"
        unfolding e' using vk by (simp add: appendChildren_Parent)
      moreover have "WarnNoSlotFound \<in> set (logs st')"
        unfolding e' by (simp add: appendChildren_more)
      ultimately show ?thesis using True by simp
    next
      case False
      then have e': "st' = logMsg ErrorRootNotContainer (logMsg WarnNoSlotFound st3)" using e by simp
      show ?thesis unfolding e' using False by simp
    qed
  qed
  show ?thesis using run chP main by blast
qed

section \<open>Example inputs\<close>

text \<open>
  A concrete instance of the parameters, for running the model: type and property numbers
  as the KRB format assigns them, and decoders that read the raw value bytes. \<open>tabState\<close>
  is a finished two-element tree: a container with a red foreground and its text child.
\<close>

definition exampleKrb :: krb where
  "exampleKrb = \<lparr>
     ElemTypeApp = 0x00, ElemTypeContainer = 0x01, ElemTypeText = 0x02, ElemTypeImage = 0x03,
     ElemTypeButton = 0x10, ElemTypeInput = 0x11,
     PropIDBgColor = 0x01, PropIDFgColor = 0x02, PropIDBorderColor = 0x03,
     PropIDBorderWidth = 0x04, PropIDPadding = 0x0E, PropIDTextAlignment = 0x0B,
     PropIDVisibility = 0x10, PropIDFontSize = 0x09, PropIDTextContent = 0x08,
     PropIDImageSource = 0x0D,
     ValTypeString = 0x04, ValTypeResource = 0x05, FlagHasApp = 0x0040, LayoutAlignStart = 0,
     EventFileEntrySize = 2, AnimationRefSize = 2,
     getColorValue = (\<lambda>p flags. case Value p of [r, g, b, a] \<Rightarrow> Some (Color r g b a) | _ \<Rightarrow> None),
     getByteValue = (\<lambda>p. case Value p of [b] \<Rightarrow> Some b | _ \<Rightarrow> None),
     getShortValue = (\<lambda>p. case Value p of [lo, hi] \<Rightarrow> Some (ucast lo + 256 * ucast hi) | _ \<Rightarrow> None),
     getEdgeInsetsValue = (\<lambda>p. case Value p of [t, r, b, l] \<Rightarrow> Some (t, r, b, l) | _ \<Rightarrow> None),
     getStylePropertyValue = (\<lambda>s pid. find (\<lambda>p. PropID p = pid) (Style_Properties s)),
     GetCustomPropertyValue = (\<lambda>el key doc. ([], False))\<rparr>"

definition exampleConfig :: WindowConfig where
  "exampleConfig = \<lparr>DefaultFgColor = Color 245 245 245 255,
     DefaultBorderColor = Color 130 130 130 255, DefaultFontSize = 18\<rparr>"

definition header :: "u8 \<Rightarrow> u8 \<Rightarrow> ElementHeader" where
  "header t i = \<lparr>Type = t, ID = i, PosX = 0, PosY = 0, Width = 0, Height = 0, Layout = 0,
     StyleID = 0, PropertyCount = 0, ChildCount = 0, EventCount = 0, AnimationCount = 0,
     CustomPropCount = 0\<rparr>"

definition tabDoc :: Document where
  "tabDoc = \<lparr>Flags = 0, Strings = [[], ''bar'', ''tab''], Styles = [],
     Elements = [header 1 1, header 2 2], Properties = [[], []], ChildRefs = [[], []],
     ElementStartOffsets = [0, 17], ComponentDefinitions = []\<rparr>"

definition tabState :: rstate where
  "tabState = \<lparr>arrays = [[
       zeroElement\<lparr>Header := header 1 1, Children := [(0, 1)],
         FgColor := Color 255 0 0 255, ResolvedFontSize := 18, IsVisible := True\<rparr>,
       zeroElement\<lparr>Header := header 2 2, OriginalIndex := 1, Parent := Some (0, 0),
         FgColor := Color 0 255 0 255, ResolvedFontSize := 18, IsVisible := True\<rparr>,
       zeroElement, zeroElement]],
     elements = (0, 2), roots = [(0, 0)], nextMasterIndex = 2, logs = []\<rparr>"

text \<open>The theorem at the text child of \<open>tabState\<close>, which inherits the red of its parent.\<close>

theorem ReResolveElementVisuals_frame_witness:
  "\<exists>st'. ReResolveElementVisuals 2 exampleKrb (Some tabDoc) exampleConfig tabState (Some (0, 1)) = Some st'
     \<and> map (map structureOf) (arrays st') = map (map structureOf) (arrays tabState)
     \<and> elements st' = elements tabState \<and> roots st' = roots tabState
     \<and> deref st' (0, 0) = deref tabState (0, 0)
     \<and> FgColor (deref st' (0, 1)) = Color 255 0 0 255"
proof -
  have "ReResolveElementVisuals 2 exampleKrb (Some tabDoc) exampleConfig tabState (Some (0, 1)) \<noteq> None"
    by code_simp
  then obtain st' where
    r: "ReResolveElementVisuals 2 exampleKrb (Some tabDoc) exampleConfig tabState (Some (0, 1)) = Some st'"
    by auto
  have "FgColor (deref (the (ReResolveElementVisuals 2 exampleKrb (Some tabDoc) exampleConfig
          tabState (Some (0, 1)))) (0, 1)) = Color 255 0 0 255"
    by code_simp
  then have f: "FgColor (deref st' (0, 1)) = Color 255 0 0 255" using r by simp
  have "Children (deref tabState (0, 1)) = []" by code_simp
  then have "c \<notin> descendants tabState (0, 1)" for c
    using descendants_leaf [of c tabState "(0, 1)"] by auto
  then have "(0, 0) \<noteq> ((0, 1) :: ptr) \<and> (0, 0) \<notin> descendants tabState (0, 1)" by simp
  then have "deref st' (0, 0) = deref tabState (0, 0)"
    using ReResolveElementVisuals_frame [OF r] by blast
  then show ?thesis using ReResolveElementVisuals_frame [OF r] r f by blast
qed

text \<open>
  Claim C9 as stated leaves the visibility flag out of what may change. \<open>hiddenDoc\<close> is
  \<open>tabDoc\<close> with a direct visibility property of value 0 on the text element: the
  element is visible in \<open>tabState\<close> and is not after the call.
\<close>

definition hiddenDoc :: Document where
  "hiddenDoc = tabDoc\<lparr>Properties :=
     [[], [\<lparr>PropID = 0x10, ValueType = 0x01, Size = 1, Value = [0]\<rparr>]]\<rparr>"

theorem ReResolveElementVisuals_visibility_counterexample:
  "IsVisible (deref tabState (0, 1))
   \<and> map_option (\<lambda>st'. IsVisible (deref st' (0, 1)))
        (ReResolveElementVisuals 2 exampleKrb (Some hiddenDoc) exampleConfig tabState (Some (0, 1)))
       = Some False"
  by code_simp

end
